theory Spec2Isabelle
  imports Complex_Main "HOL-Library.AList" "HOL-Library.Multiset"
begin

section \<open>Data model: pandas frames held in an object store\<close>

text \<open>
  \<^verbatim>\<open>analysis.py\<close> works on pandas \<open>DataFrame\<close> objects. A frame is an index (the row
  labels) and an ordered dictionary from column names to columns; every column has a dtype.
  Real arithmetic stands for float64 arithmetic (no rounding); a missing cell (\<open>NaN\<close>,
  \<open>NaT\<close>, \<open>None\<close>) is \<open>None\<close>. Infinite floats are not representable: the cells of a
  numeric column are finite or missing.
\<close>

datatype pyobj = PyStr string | PyNum real

datatype column =
    Float64 "real option list"
  | Object "pyobj option list"
  | Datetime64 "int option list"
  | Category "string option list"

record dataframe =
  index :: "nat list"
  columns :: "(string \<times> column) list"

text \<open>
  The exceptions of the Python runtime and of the libraries that the program can meet.
  \<open>DegenerateDistributionError\<close>, \<open>InsufficientGroupsError\<close> and \<open>DataLoadError\<close> are
  the names of the specification's error taxonomy; no statement of \<^verbatim>\<open>analysis.py\<close> raises
  them, they are here so that this can be stated. \<open>Unmodelled\<close> marks the one place where
  pandas computes something this model has no values for (quantiles, means and binning of
  a datetime column).
\<close>

datatype error =
    KeyError
  | TypeError
  | ValueError
  | IOError
  | Unmodelled
  | DegenerateDistributionError
  | InsufficientGroupsError
  | DataLoadError

text \<open>
  Python objects have identity: a function can hand back the very frame it was given, after
  changing it. Frames live in a store; a frame is named by its address.
\<close>

type_synonym ref = nat

record heap =
  objs :: "ref \<Rightarrow> dataframe"
  fresh :: ref

definition alloc :: "heap \<Rightarrow> dataframe \<Rightarrow> heap \<times> ref" where
  "alloc h v = (h\<lparr>objs := (objs h)(fresh h := v), fresh := Suc (fresh h)\<rparr>, fresh h)"

subsection \<open>Column access\<close>

text \<open>\<^verbatim>\<open>df[name]\<close>: the column, or \<open>KeyError\<close>.\<close>

definition getitem :: "dataframe \<Rightarrow> string \<Rightarrow> error + column" where
  "getitem df name = (case map_of (columns df) name of None \<Rightarrow> Inl KeyError | Some c \<Rightarrow> Inr c)"

text \<open>
  \<^verbatim>\<open>df[name] = col\<close>: replaces the column in place when the name exists, appends it as
  the last column otherwise. The frame object itself is changed.
\<close>

definition setitem :: "heap \<Rightarrow> ref \<Rightarrow> string \<Rightarrow> column \<Rightarrow> heap" where
  "setitem h r name col =
     h\<lparr>objs := (objs h)(r := (objs h r)\<lparr>columns := AList.update name col (columns (objs h r))\<rparr>)\<rparr>"

text \<open>
  The float view of a column for the numeric reductions (\<open>quantile\<close>, \<open>mean\<close>, \<open>std\<close>)
  and for comparison with a float: pandas raises \<open>TypeError\<close> on an object or categorical
  column.
\<close>

fun numeric :: "column \<Rightarrow> error + real option list" where
  "numeric (Float64 xs) = Inr xs"
| "numeric (Object xs) = Inl TypeError"
| "numeric (Category xs) = Inl TypeError"
| "numeric (Datetime64 xs) = Inl Unmodelled"

text \<open>Boolean-mask row selection \<^verbatim>\<open>df[mask]\<close>: keeps the rows whose mask entry is true, in order.\<close>

definition select :: "bool list \<Rightarrow> 'a list \<Rightarrow> 'a list" where
  "select keep xs = map snd (filter fst (zip keep xs))"

fun select_col :: "bool list \<Rightarrow> column \<Rightarrow> column" where
  "select_col keep (Float64 xs) = Float64 (select keep xs)"
| "select_col keep (Object xs) = Object (select keep xs)"
| "select_col keep (Datetime64 xs) = Datetime64 (select keep xs)"
| "select_col keep (Category xs) = Category (select keep xs)"

definition loc :: "dataframe \<Rightarrow> bool list \<Rightarrow> dataframe" where
  "loc df keep =
     \<lparr>index = select keep (index df),
      columns = map (\<lambda>(name, col). (name, select_col keep col)) (columns df)\<rparr>"

subsection \<open>Float arithmetic with NaN\<close>

definition fsub :: "real option \<Rightarrow> real option \<Rightarrow> real option" where
  "fsub a b = (case (a, b) of (Some x, Some y) \<Rightarrow> Some (x - y) | _ \<Rightarrow> None)"

definition fadd :: "real option \<Rightarrow> real option \<Rightarrow> real option" where
  "fadd a b = (case (a, b) of (Some x, Some y) \<Rightarrow> Some (x + y) | _ \<Rightarrow> None)"

definition fmul :: "real option \<Rightarrow> real option \<Rightarrow> real option" where
  "fmul a b = (case (a, b) of (Some x, Some y) \<Rightarrow> Some (x * y) | _ \<Rightarrow> None)"

text \<open>\<^verbatim>\<open>a >= b\<close> and \<^verbatim>\<open>a <= b\<close> on floats: false as soon as one side is NaN.\<close>

definition fge :: "real option \<Rightarrow> real option \<Rightarrow> bool" where
  "fge a b = (case (a, b) of (Some x, Some y) \<Rightarrow> y \<le> x | _ \<Rightarrow> False)"

definition fle :: "real option \<Rightarrow> real option \<Rightarrow> bool" where
  "fle a b = (case (a, b) of (Some x, Some y) \<Rightarrow> x \<le> y | _ \<Rightarrow> False)"

subsection \<open>Series reductions\<close>

text \<open>The reductions skip missing cells (\<open>skipna=True\<close>).\<close>

definition dropna_vals :: "real option list \<Rightarrow> real list" where
  "dropna_vals xs = List.map_filter id xs"

text \<open>
  \<open>Series.quantile(q)\<close> with the default \<open>interpolation='linear'\<close>, for \<open>0 \<le> q \<le> 1\<close>
  (the program calls it with constants in that range; pandas raises \<open>ValueError\<close>
  outside it): on the sorted non-missing values \<open>s\<close> of length \<open>n\<close>, the value at the
  fractional position \<open>(n - 1) * q\<close>, interpolated linearly between the two neighbouring
  order statistics. A series without values has quantile NaN.
\<close>

definition quantile :: "real option list \<Rightarrow> real \<Rightarrow> real option" where
  "quantile xs q =
     (let s = sort (dropna_vals xs); n = length s in
      if n = 0 then None
      else
        let pos = real (n - 1) * q;
            i = nat \<lfloor>pos\<rfloor>;
            g = pos - real i;
            lo = s ! i;
            hi = s ! (min (i + 1) (n - 1))
        in Some (lo + (hi - lo) * g))"

section \<open>The outlier filter\<close>

text \<open>
  \<^verbatim>\<open>
  def remove_price_outliers(df, price_col='price'):
      q1 = df[price_col].quantile(0.25)
      q3 = df[price_col].quantile(0.75)
      iqr = q3 - q1
      lower_bound = q1 - 1.5 * iqr
      upper_bound = q3 + 1.5 * iqr
      filtered_df = df[(df[price_col] >= lower_bound) & (df[price_col] <= upper_bound)].copy()
      return filtered_df
  \<close>
  The frame \<open>df\<close> is only read; the result is a new object.
\<close>

definition lower_bound :: "real option list \<Rightarrow> real option" where
  "lower_bound xs =
     (let q1 = quantile xs (1/4); q3 = quantile xs (3/4); iqr = fsub q3 q1
      in fsub q1 (fmul (Some (3/2)) iqr))"

definition upper_bound :: "real option list \<Rightarrow> real option" where
  "upper_bound xs =
     (let q1 = quantile xs (1/4); q3 = quantile xs (3/4); iqr = fsub q3 q1
      in fadd q3 (fmul (Some (3/2)) iqr))"

definition remove_price_outliers :: "heap \<Rightarrow> ref \<Rightarrow> string \<Rightarrow> heap \<times> (error + ref)" where
  "remove_price_outliers h df price_col =
     (case getitem (objs h df) price_col of
        Inl e \<Rightarrow> (h, Inl e)
      | Inr col \<Rightarrow>
          (case numeric col of
             Inl e \<Rightarrow> (h, Inl e)
           | Inr xs \<Rightarrow>
               let keep = map (\<lambda>v. fge v (lower_bound xs) \<and> fle v (upper_bound xs)) xs;
                   (h', filtered_df) = alloc h (loc (objs h df) keep)
               in (h', Inr filtered_df)))"

section \<open>Loading and cleaning\<close>

text \<open>Which cells of a column are missing (\<open>isna\<close>).\<close>

fun isna :: "column \<Rightarrow> bool list" where
  "isna (Float64 xs) = map (\<lambda>c. c = None) xs"
| "isna (Object xs) = map (\<lambda>c. c = None) xs"
| "isna (Datetime64 xs) = map (\<lambda>c. c = None) xs"
| "isna (Category xs) = map (\<lambda>c. c = None) xs"

text \<open>
  \<open>Series.fillna(0)\<close>. On a float column the missing cells become \<open>0.0\<close>, on an object
  column the Python number \<open>0\<close>. A categorical column refuses a value that is not one of
  its categories; \<open>read_csv\<close> produces neither categorical nor datetime columns.
\<close>

fun fillna0 :: "column \<Rightarrow> error + column" where
  "fillna0 (Float64 xs) = Inr (Float64 (map (\<lambda>c. case c of None \<Rightarrow> Some 0 | Some v \<Rightarrow> Some v) xs))"
| "fillna0 (Object xs) = Inr (Object (map (\<lambda>c. case c of None \<Rightarrow> Some (PyNum 0) | Some v \<Rightarrow> Some v) xs))"
| "fillna0 (Category xs) = Inl TypeError"
| "fillna0 (Datetime64 xs) = Inl Unmodelled"

text \<open>
  \<open>df.dropna(subset=names)\<close>: \<open>KeyError\<close> when a name is not a column; otherwise a new
  frame with the rows in which none of the named columns is missing.
\<close>

definition dropna :: "dataframe \<Rightarrow> string list \<Rightarrow> error + dataframe" where
  "dropna df names =
     (case those (map (map_of (columns df)) names) of
        None \<Rightarrow> Inl KeyError
      | Some cols \<Rightarrow>
          Inr (loc df (map (\<lambda>i. list_all (\<lambda>c. i < length (isna c) \<and> \<not> isna c ! i) cols)
                          [0..<length (index df)])))"

text \<open>
  \<^verbatim>\<open>
  def load_data(file_path):
      df = pd.read_csv(file_path)
      df['last_review'] = pd.to_datetime(df['last_review'], errors='coerce')
      df['reviews_per_month'] = df['reviews_per_month'].fillna(0)
      df = df.dropna(subset=['neighbourhood_group', 'room_type'])
      return df
  \<close>
  The file system and the CSV parser (\<open>read_csv\<close>: a frame, or the error of an unreadable
  file) and the date parser (\<open>to_datetime\<close> with \<open>errors='coerce'\<close>: one datetime or \<open>NaT\<close>
  per cell) are parameters. The frame that \<open>read_csv\<close> returns is a new object, changed in
  place by the two assignments; \<open>dropna\<close> returns another new object.
\<close>

definition load_data ::
  "(string \<Rightarrow> error + dataframe) \<Rightarrow> (column \<Rightarrow> int option list) \<Rightarrow> heap \<Rightarrow> string
     \<Rightarrow> heap \<times> (error + ref)" where
  "load_data read_csv to_datetime h file_path =
     (case read_csv file_path of
        Inl e \<Rightarrow> (h, Inl e)
      | Inr raw \<Rightarrow>
          let (h0, df) = alloc h raw in
          (case getitem (objs h0 df) ''last_review'' of
             Inl e \<Rightarrow> (h0, Inl e)
           | Inr lr \<Rightarrow>
               let h1 = setitem h0 df ''last_review'' (Datetime64 (to_datetime lr)) in
               (case getitem (objs h1 df) ''reviews_per_month'' of
                  Inl e \<Rightarrow> (h1, Inl e)
                | Inr rpm \<Rightarrow>
                    (case fillna0 rpm of
                       Inl e \<Rightarrow> (h1, Inl e)
                     | Inr filled \<Rightarrow>
                         let h2 = setitem h1 df ''reviews_per_month'' filled in
                         (case dropna (objs h2 df) [''neighbourhood_group'', ''room_type''] of
                            Inl e \<Rightarrow> (h2, Inl e)
                          | Inr cleaned \<Rightarrow>
                              let (h3, df') = alloc h2 cleaned in (h3, Inr df'))))))"

section \<open>The feature deriver\<close>

text \<open>\<open>Series.mean()\<close>: the mean of the non-missing values, NaN when there is none.\<close>

definition series_mean :: "real option list \<Rightarrow> real option" where
  "series_mean xs =
     (let v = dropna_vals xs in
      if v = [] then None else Some (sum_list v / real (length v)))"

text \<open>
  \<open>Series.std(ddof)\<close>: the square root of the sum of squared deviations from the mean
  divided by \<open>n - ddof\<close>, over the \<open>n\<close> non-missing values; NaN when \<open>n \<le> ddof\<close>.
\<close>

definition series_std :: "nat \<Rightarrow> real option list \<Rightarrow> real option" where
  "series_std ddof xs =
     (let v = dropna_vals xs; n = length v in
      if n \<le> ddof then None
      else
        let m = sum_list v / real n
        in Some (sqrt (sum_list (map (\<lambda>x. (x - m)\<^sup>2) v) / real (n - ddof))))"

text \<open>
  Float division. \<open>0 / 0\<close> is NaN. A non-zero numerator over \<open>0\<close> is an infinity in
  float64, for which the cells of this model have no value: the branch is NaN here, and
  lemma \<open>std_zero_deviation\<close> below shows that the one division of the program never
  takes it (a zero standard deviation makes every deviation from the mean zero).
\<close>

definition fdiv :: "real option \<Rightarrow> real option \<Rightarrow> real option" where
  "fdiv a b =
     (case (a, b) of
        (Some x, Some y) \<Rightarrow> if y = 0 then None else Some (x / y)
      | _ \<Rightarrow> None)"

text \<open>
  The label of one cell in \<open>pd.qcut\<close> (\<open>_bins_to_cuts\<close> with \<open>right=True\<close>,
  \<open>include_lowest=True\<close>): \<open>searchsorted(side='left')\<close> on the edges, the lowest edge
  counted into the first bin; a missing cell, or one outside the edges, has no label.
\<close>

definition searchsorted_left :: "real list \<Rightarrow> real \<Rightarrow> nat" where
  "searchsorted_left bins v = length (takeWhile (\<lambda>b. b < v) bins)"

definition bin_label :: "real list \<Rightarrow> string list \<Rightarrow> real option \<Rightarrow> string option" where
  "bin_label bins labels c =
     (case c of
        None \<Rightarrow> None
      | Some v \<Rightarrow>
          let ids = (if v = bins ! 0 then 1 else searchsorted_left bins v)
          in if ids = length bins \<or> ids = 0 then None else Some (labels ! (ids - 1)))"

text \<open>
  \<open>pd.qcut(x, q, labels)\<close> for an integer \<open>q\<close>: the edges are the quantiles of the
  non-missing values at \<open>0, 1/q, ..., 1\<close>; with the default \<open>duplicates='raise'\<close> two equal
  edges are a \<open>ValueError\<close> (so is a series without values: every edge is NaN), and so is
  a list of labels that is not one shorter than the list of edges.
\<close>

definition qcut :: "real option list \<Rightarrow> nat \<Rightarrow> string list \<Rightarrow> error + column" where
  "qcut xs q labels =
     (let bins = map (\<lambda>k. quantile xs (real k / real q)) [0..<q + 1] in
      if \<not> distinct bins then Inl ValueError
      else if length labels \<noteq> q then Inl ValueError
      else Inr (Category (map (bin_label (dropna_vals bins) labels) xs)))"

text \<open>
  \<^verbatim>\<open>
  def normalize_and_discretize(df, price_col='price'):
      mean = df[price_col].mean()
      std = df[price_col].std(ddof=0)
      df['price_zscore'] = (df[price_col] - mean) / std
      df['price_bin'] = pd.qcut(df[price_col], q=3, labels=['low', 'medium', 'high'])
      return df
  \<close>
  Both assignments change the frame that was passed in, and that same frame is returned.
  When \<open>qcut\<close> raises, the first assignment has already happened.
\<close>

definition normalize_and_discretize :: "heap \<Rightarrow> ref \<Rightarrow> string \<Rightarrow> heap \<times> (error + ref)" where
  "normalize_and_discretize h df price_col =
     (case getitem (objs h df) price_col of
        Inl e \<Rightarrow> (h, Inl e)
      | Inr col \<Rightarrow>
          (case numeric col of
             Inl e \<Rightarrow> (h, Inl e)
           | Inr xs \<Rightarrow>
               let mean = series_mean xs;
                   std = series_std 0 xs;
                   h1 = setitem h df ''price_zscore''
                          (Float64 (map (\<lambda>c. fdiv (fsub c mean) std) xs))
               in
               (case getitem (objs h1 df) price_col of
                  Inl e \<Rightarrow> (h1, Inl e)
                | Inr col' \<Rightarrow>
                    (case numeric col' of
                       Inl e \<Rightarrow> (h1, Inl e)
                     | Inr xs' \<Rightarrow>
                         (case qcut xs' 3 [''low'', ''medium'', ''high''] of
                            Inl e \<Rightarrow> (h1, Inl e)
                          | Inr bins \<Rightarrow> (setitem h1 df ''price_bin'' bins, Inr df))))))"

section \<open>The statistics reporter\<close>

text \<open>
  One row of \<open>DataFrame.describe()\<close>: count, mean, sample standard deviation (\<open>std()\<close>
  with its default \<open>ddof=1\<close>), minimum, the quartiles and maximum of a numeric column.
\<close>

record summary =
  s_count :: nat
  s_mean :: "real option"
  s_std :: "real option"
  s_min :: "real option"
  s_q25 :: "real option"
  s_q50 :: "real option"
  s_q75 :: "real option"
  s_max :: "real option"

definition series_min :: "real option list \<Rightarrow> real option" where
  "series_min xs = (let v = dropna_vals xs in if v = [] then None else Some (Min (set v)))"

definition series_max :: "real option list \<Rightarrow> real option" where
  "series_max xs = (let v = dropna_vals xs in if v = [] then None else Some (Max (set v)))"

definition describe :: "real option list \<Rightarrow> summary" where
  "describe xs =
     \<lparr>s_count = length (dropna_vals xs),
      s_mean = series_mean xs,
      s_std = series_std 1 xs,
      s_min = series_min xs,
      s_q25 = quantile xs (1/4),
      s_q50 = quantile xs (1/2),
      s_q75 = quantile xs (3/4),
      s_max = series_max xs\<rparr>"

text \<open>
  \<^verbatim>\<open>
  def descriptive_statistics(df):
      numeric_cols = df.select_dtypes(include=[np.number]).columns
      return df[numeric_cols].describe().T
  \<close>
  The result has one row per numeric column, keyed by the column's name, in the order of
  the columns. \<open>describe\<close> raises \<open>ValueError\<close> on a frame without columns.
\<close>

definition select_dtypes_number :: "dataframe \<Rightarrow> (string \<times> real option list) list" where
  "select_dtypes_number df =
     List.map_filter (\<lambda>(name, col). case col of Float64 xs \<Rightarrow> Some (name, xs) | _ \<Rightarrow> None)
       (columns df)"

definition descriptive_statistics :: "heap \<Rightarrow> ref \<Rightarrow> error + (string \<times> summary) list" where
  "descriptive_statistics h df =
     (let numeric_cols = select_dtypes_number (objs h df) in
      if numeric_cols = [] then Inl ValueError
      else Inr (map (\<lambda>(name, xs). (name, describe xs)) numeric_cols))"

text \<open>
  The result of the ANOVA is a pair of floats that can be infinite or NaN.
\<close>

datatype xfloat = Fin real | PosInf | NegInf | NaN

definition xdiv :: "real \<Rightarrow> real \<Rightarrow> xfloat" where
  "xdiv a b =
     (if b = 0 then (if a = 0 then NaN else if 0 < a then PosInf else NegInf)
      else Fin (a / b))"

text \<open>
  \<open>df.groupby(key)\<close>: one group per distinct non-missing key (rows with a missing key are
  in no group), given here as the row mask of each group. pandas yields the groups in
  ascending key order and this model in an order of appearance in the column; the only
  consumer, \<open>f_oneway\<close>, adds over the groups, so its result is the same for every order. For a categorical key pandas also yields the
  categories that no row has, which this model's categorical columns do not record.
\<close>

definition group_masks :: "'a option list \<Rightarrow> bool list list" where
  "group_masks keys =
     map (\<lambda>k. map (\<lambda>c. c = Some k) keys) (remdups (List.map_filter id keys))"

fun groupby :: "column \<Rightarrow> error + bool list list" where
  "groupby (Float64 xs) = Inr (group_masks xs)"
| "groupby (Object xs) = Inr (group_masks xs)"
| "groupby (Datetime64 xs) = Inr (group_masks xs)"
| "groupby (Category xs) = Inl Unmodelled"

text \<open>The first error of a list of results, or all the values.\<close>

fun collect :: "(error + 'a) list \<Rightarrow> error + 'a list" where
  "collect [] = Inr []"
| "collect (Inl e # rs) = Inl e"
| "collect (Inr v # rs) = (case collect rs of Inl e \<Rightarrow> Inl e | Inr vs \<Rightarrow> Inr (v # vs))"

text \<open>
  \<open>np.asarray(sample, dtype=float)\<close> on the values of a column. What numpy makes of an
  object array depends on each string; only float columns are modelled.
\<close>

fun asarray_float :: "column \<Rightarrow> error + real option list" where
  "asarray_float (Float64 xs) = Inr xs"
| "asarray_float (Object xs) = Inl Unmodelled"
| "asarray_float (Datetime64 xs) = Inl Unmodelled"
| "asarray_float (Category xs) = Inl Unmodelled"

text \<open>
  \<open>scipy.stats.f_oneway\<close> on one-dimensional samples, after its argument check. An
  empty sample, samples that all have length 1, or a NaN among the values give
  \<open>(nan, nan)\<close>. Otherwise the sums of squares are computed on the data shifted by the
  grand mean. \<open>fdtrc\<close>, the survival function of the F distribution
  (\<open>scipy.special.fdtrc\<close>), is a parameter.
\<close>

definition f_oneway_arrays ::
  "(nat \<Rightarrow> nat \<Rightarrow> xfloat \<Rightarrow> xfloat) \<Rightarrow> real option list list \<Rightarrow> xfloat \<times> xfloat" where
  "f_oneway_arrays fdtrc arrs =
     (if list_ex (\<lambda>a. a = []) arrs then (NaN, NaN)
      else if list_all (\<lambda>a. length a = 1) arrs then (NaN, NaN)
      else if list_ex (\<lambda>a. list_ex (\<lambda>c. c = None) a) arrs then (NaN, NaN)
      else
        let samples = map dropna_vals arrs;
            num_groups = length samples;
            alldata = concat samples;
            bign = length alldata;
            all_const = list_all (\<lambda>s. list_all (\<lambda>x. x = s ! 0) s) samples;
            all_same_const = list_all (\<lambda>x. x = alldata ! 0) alldata;
            offset = sum_list alldata / real bign;
            alldata' = map (\<lambda>x. x - offset) alldata;
            normalized_ss = (sum_list alldata')\<^sup>2 / real bign;
            sstot = sum_list (map (\<lambda>x. x\<^sup>2) alldata') - normalized_ss;
            ssbn = sum_list (map (\<lambda>s. (sum_list (map (\<lambda>x. x - offset) s))\<^sup>2 / real (length s))
                               samples) - normalized_ss;
            sswn = sstot - ssbn;
            dfbn = num_groups - 1;
            dfwn = bign - num_groups;
            msb = ssbn / real dfbn;
            msw = sswn / real dfwn;
            f = xdiv msb msw;
            prob = fdtrc dfbn dfwn f
        in if all_same_const then (NaN, NaN)
           else if all_const then (PosInf, Fin 0)
           else (f, prob))"

definition f_oneway ::
  "(nat \<Rightarrow> nat \<Rightarrow> xfloat \<Rightarrow> xfloat) \<Rightarrow> column list \<Rightarrow> error + xfloat \<times> xfloat" where
  "f_oneway fdtrc samples =
     (if length samples < 2 then Inl TypeError
      else
        (case collect (map asarray_float samples) of
           Inl e \<Rightarrow> Inl e
         | Inr arrs \<Rightarrow> Inr (f_oneway_arrays fdtrc arrs)))"

text \<open>
  \<^verbatim>\<open>
  def anova_test(df):
      groups = [group['price'].values for name, group in df.groupby('neighbourhood_group')]
      f_stat, p_val = stats.f_oneway(*groups)
      return f_stat, p_val
  \<close>
  The frame is only read. \<open>group['price']\<close> is evaluated once per group, so a frame
  without groups never looks the price column up.
\<close>

definition anova_test ::
  "(nat \<Rightarrow> nat \<Rightarrow> xfloat \<Rightarrow> xfloat) \<Rightarrow> heap \<Rightarrow> ref \<Rightarrow> error + xfloat \<times> xfloat" where
  "anova_test fdtrc h df =
     (case getitem (objs h df) ''neighbourhood_group'' of
        Inl e \<Rightarrow> Inl e
      | Inr keys \<Rightarrow>
          (case groupby keys of
             Inl e \<Rightarrow> Inl e
           | Inr masks \<Rightarrow>
               (case collect (map (\<lambda>m. getitem (loc (objs h df) m) ''price'') masks) of
                  Inl e \<Rightarrow> Inl e
                | Inr groups \<Rightarrow> f_oneway fdtrc groups)))"

section \<open>Vocabulary of the statements\<close>

text \<open>The rows of a frame at a set of positions, in their order.\<close>

fun nths_col :: "column \<Rightarrow> nat set \<Rightarrow> column" where
  "nths_col (Float64 xs) K = Float64 (nths xs K)"
| "nths_col (Object xs) K = Object (nths xs K)"
| "nths_col (Datetime64 xs) K = Datetime64 (nths xs K)"
| "nths_col (Category xs) K = Category (nths xs K)"

definition rows_at :: "dataframe \<Rightarrow> nat set \<Rightarrow> dataframe" where
  "rows_at df K =
     \<lparr>index = nths (index df) K,
      columns = map (\<lambda>(name, col). (name, nths_col col K)) (columns df)\<rparr>"

text \<open>The example of the specification: five listings with prices 10, 20, 20, 30, 1000.\<close>

definition prices8 :: "real option list" where
  "prices8 = [Some 10, Some 20, Some 20, Some 30, Some 1000]"

definition frame8 :: dataframe where
  "frame8 =
     \<lparr>index = [0, 1, 2, 3, 4],
      columns =
        [(''neighbourhood_group'',
            Object [Some (PyStr ''Bronx''), Some (PyStr ''Bronx''), Some (PyStr ''Queens''),
                    Some (PyStr ''Queens''), Some (PyStr ''Queens'')]),
         (''room_type'',
            Object [Some (PyStr ''Private room''), Some (PyStr ''Shared room''),
                    Some (PyStr ''Private room''), Some (PyStr ''Shared room''),
                    Some (PyStr ''Private room'')]),
         (''price'', Float64 prices8)]\<rparr>"

definition heap8 :: heap where
  "heap8 = \<lparr>objs = (\<lambda>_. frame8), fresh = 1\<rparr>"

text \<open>Cell \<open>i\<close> of a column is the number zero; two columns agree at cell \<open>i\<close>.\<close>

fun is_zero :: "column \<Rightarrow> nat \<Rightarrow> bool" where
  "is_zero (Float64 xs) i = (xs ! i = Some 0)"
| "is_zero (Object xs) i = (xs ! i = Some (PyNum 0))"
| "is_zero (Datetime64 xs) i = False"
| "is_zero (Category xs) i = False"

fun cell_eq :: "column \<Rightarrow> column \<Rightarrow> nat \<Rightarrow> bool" where
  "cell_eq (Float64 xs) (Float64 ys) i = (xs ! i = ys ! i)"
| "cell_eq (Object xs) (Object ys) i = (xs ! i = ys ! i)"
| "cell_eq (Datetime64 xs) (Datetime64 ys) i = (xs ! i = ys ! i)"
| "cell_eq (Category xs) (Category ys) i = (xs ! i = ys ! i)"
| "cell_eq _ _ i = False"

text \<open>A small raw table: the second row has no neighbourhood group, the first no review rate.\<close>

definition raw2 :: dataframe where
  "raw2 =
     \<lparr>index = [0, 1, 2],
      columns =
        [(''neighbourhood_group'', Object [Some (PyStr ''Bronx''), None, Some (PyStr ''Queens'')]),
         (''room_type'', Object [Some (PyStr ''Private room''), Some (PyStr ''Shared room''),
                                 Some (PyStr ''Private room'')]),
         (''price'', Float64 [Some 10, Some 20, Some 30]),
         (''last_review'', Object [Some (PyStr ''2019-05-21''), None, Some (PyStr ''n/a'')]),
         (''reviews_per_month'', Float64 [None, Some 2, Some (1/2)])]\<rparr>"


text \<open>Two listings with prices 1 and 3 and one listing without a price.\<close>

definition frame3 :: dataframe where
  "frame3 =
     \<lparr>index = [0, 1, 2],
      columns =
        [(''neighbourhood_group'',
            Object [Some (PyStr ''Bronx''), Some (PyStr ''Queens''), Some (PyStr ''Queens'')]),
         (''price'', Float64 [Some 1, None, Some 3])]\<rparr>"

definition heap3 :: heap where
  "heap3 = \<lparr>objs = (\<lambda>_. frame3), fresh = 1\<rparr>"

text \<open>Three listings with the same price.\<close>

definition frame5 :: dataframe where
  "frame5 =
     \<lparr>index = [0, 1, 2],
      columns =
        [(''neighbourhood_group'',
            Object [Some (PyStr ''Bronx''), Some (PyStr ''Queens''), Some (PyStr ''Queens'')]),
         (''price'', Float64 [Some 5, Some 5, Some 5])]\<rparr>"

definition heap5 :: heap where
  "heap5 = \<lparr>objs = (\<lambda>_. frame5), fresh = 1\<rparr>"

text \<open>
  Linear interpolation between the order statistics of a sorted list \<open>s\<close> at the
  fractional position \<open>p\<close>.
\<close>

definition interp :: "real list \<Rightarrow> real \<Rightarrow> real" where
  "interp s p =
     s ! nat \<lfloor>p\<rfloor> +
     (s ! min (nat \<lfloor>p\<rfloor> + 1) (length s - 1) - s ! nat \<lfloor>p\<rfloor>) * (p - real (nat \<lfloor>p\<rfloor>))"

text \<open>The four bin edges of the tertile binning, and the label they give a cell.\<close>

definition edges3 :: "real option list \<Rightarrow> real option list" where
  "edges3 xs = [quantile xs 0, quantile xs (1/3), quantile xs (2/3), quantile xs 1]"

definition tertile_label :: "real \<Rightarrow> real \<Rightarrow> real option \<Rightarrow> string option" where
  "tertile_label e1 e2 c =
     (case c of
        None \<Rightarrow> None
      | Some v \<Rightarrow> Some (if v \<le> e1 then ''low'' else if v \<le> e2 then ''medium'' else ''high''))"

text \<open>Five listings with four different prices, none of them an outlier.\<close>

definition prices7 :: "real option list" where
  "prices7 = [Some 0, Some 1, Some 1, Some 4, Some 5]"

definition frame7 :: dataframe where
  "frame7 =
     \<lparr>index = [0, 1, 2, 3, 4],
      columns =
        [(''neighbourhood_group'',
            Object [Some (PyStr ''Bronx''), Some (PyStr ''Bronx''), Some (PyStr ''Queens''),
                    Some (PyStr ''Queens''), Some (PyStr ''Queens'')]),
         (''price'', Float64 prices7)]\<rparr>"

definition heap7 :: heap where
  "heap7 = \<lparr>objs = (\<lambda>_. frame7), fresh = 1\<rparr>"

text \<open>A store with two frames: the frame with a missing price, and the example of the specification.\<close>

definition heap9 :: heap where
  "heap9 = \<lparr>objs = (\<lambda>r. if r = 0 then frame3 else frame8), fresh = 2\<rparr>"

text \<open>
  The textbook one-way ANOVA: the between-group and within-group sums of squares of a list
  of groups, and the F statistic with \<open>(k - 1, N - k)\<close> degrees of freedom.
\<close>

definition avg :: "real list \<Rightarrow> real" where
  "avg xs = sum_list xs / real (length xs)"

definition ss_between :: "real list list \<Rightarrow> real" where
  "ss_between gs = (\<Sum>g\<leftarrow>gs. real (length g) * (avg g - avg (concat gs))\<^sup>2)"

definition ss_within :: "real list list \<Rightarrow> real" where
  "ss_within gs = (\<Sum>g\<leftarrow>gs. \<Sum>x\<leftarrow>g. (x - avg g)\<^sup>2)"

definition F_statistic :: "real list list \<Rightarrow> real" where
  "F_statistic gs =
     (ss_between gs / real (length gs - 1)) /
     (ss_within gs / real (length (concat gs) - length gs))"

text \<open>The prices of each neighbourhood group of a frame.\<close>

definition price_groups :: "pyobj option list \<Rightarrow> real option list \<Rightarrow> real option list list" where
  "price_groups keys prices = map (\<lambda>m. select m prices) (group_masks keys)"

text \<open>
  The ANOVA example of the specification: group A with prices 100, 110, 120 and group B
  with prices 200, 210, 220; and a frame whose listings are all in one group.
\<close>

definition frameAB :: dataframe where
  "frameAB =
     \<lparr>index = [0, 1, 2, 3, 4, 5],
      columns =
        [(''neighbourhood_group'',
            Object [Some (PyStr ''A''), Some (PyStr ''A''), Some (PyStr ''A''),
                    Some (PyStr ''B''), Some (PyStr ''B''), Some (PyStr ''B'')]),
         (''price'', Float64 [Some 100, Some 110, Some 120, Some 200, Some 210, Some 220])]\<rparr>"

definition heapAB :: heap where
  "heapAB = \<lparr>objs = (\<lambda>_. frameAB), fresh = 1\<rparr>"

definition frameA :: dataframe where
  "frameA =
     \<lparr>index = [0, 1, 2],
      columns =
        [(''neighbourhood_group'',
            Object [Some (PyStr ''A''), Some (PyStr ''A''), Some (PyStr ''A'')]),
         (''price'', Float64 [Some 100, Some 110, Some 120])]\<rparr>"

definition heapA :: heap where
  "heapA = \<lparr>objs = (\<lambda>_. frameA), fresh = 1\<rparr>"

section \<open>Facts about the model\<close>

lemma select_Nil [simp]: "select [] xs = []" "select keep [] = []"
  by (simp_all add: select_def)

lemma select_Cons [simp]: "select (k # ks) (x # xs) = (if k then x # select ks xs else select ks xs)"
  by (simp add: select_def)

lemma select_nths: "select keep xs = nths xs {i. i < length keep \<and> keep ! i}"
proof (induction xs arbitrary: keep)
  case Nil
  show ?case by simp
next
  case (Cons x xs)
  show ?case
  proof (cases keep)
    case Nil
    then show ?thesis by simp
  next
    case (Cons k ks)
    have "{j. Suc j < length (k # ks) \<and> (k # ks) ! Suc j} = {j. j < length ks \<and> ks ! j}"
      by simp
    then show ?thesis
      using Cons.IH [of ks] Cons by (simp add: nths_Cons)
  qed
qed

lemma select_col_nths: "select_col keep c = nths_col c {i. i < length keep \<and> keep ! i}"
  by (cases c) (simp_all add: select_nths)

lemma loc_rows_at: "loc df keep = rows_at df {i. i < length keep \<and> keep ! i}"
  by (simp add: loc_def rows_at_def select_nths select_col_nths)

lemma sort_eq_Nil [simp]: "sort xs = [] \<longleftrightarrow> xs = []"
  by (metis length_sort length_0_conv)

lemma quantile_Some:
  "dropna_vals xs \<noteq> [] \<Longrightarrow> \<exists>v. quantile xs q = Some v"
  by (simp add: quantile_def Let_def)

lemma quantile_None:
  "dropna_vals xs = [] \<Longrightarrow> quantile xs q = None"
  by (simp add: quantile_def Let_def)

lemma in_bounds_iff:
  "(fge c (lower_bound xs) \<and> fle c (upper_bound xs)) \<longleftrightarrow>
   (\<exists>v q1 q3. c = Some v \<and> quantile xs (1/4) = Some q1 \<and> quantile xs (3/4) = Some q3 \<and>
      q1 - 1.5 * (q3 - q1) \<le> v \<and> v \<le> q3 + 1.5 * (q3 - q1))"
  by (cases c; cases "quantile xs (1/4)"; cases "quantile xs (3/4)")
     (auto simp: fge_def fle_def lower_bound_def upper_bound_def fsub_def fadd_def fmul_def Let_def)

text \<open>
  Claim C1. On a numeric column, the outlier filter returns a new frame that holds exactly
  the rows of its input whose value \<open>v\<close> satisfies
  \<open>Q1 - 1.5 * IQR \<le> v \<le> Q3 + 1.5 * IQR\<close> (both bounds inclusive), in their order, where
  \<open>Q1\<close> and \<open>Q3\<close> are the linear-interpolation quantiles at 1/4 and 3/4 of the input
  column and \<open>IQR = Q3 - Q1\<close>: the bounds are those of the data before filtering.
\<close>

theorem remove_price_outliers_keeps_exactly_in_bounds:
  assumes "getitem (objs h df) price_col = Inr (Float64 xs)"
  shows "\<exists>h'. remove_price_outliers h df price_col = (h', Inr (fresh h)) \<and>
           objs h' (fresh h) =
             rows_at (objs h df)
               {i. i < length xs \<and>
                   (\<exists>v q1 q3. xs ! i = Some v \<and>
                      quantile xs (1/4) = Some q1 \<and> quantile xs (3/4) = Some q3 \<and>
                      q1 - 1.5 * (q3 - q1) \<le> v \<and> v \<le> q3 + 1.5 * (q3 - q1))}"
proof -
  let ?keep = "map (\<lambda>v. fge v (lower_bound xs) \<and> fle v (upper_bound xs)) xs"
  have K: "{i. i < length ?keep \<and> ?keep ! i} =
        {i. i < length xs \<and>
                   (\<exists>v q1 q3. xs ! i = Some v \<and>
                      quantile xs (1/4) = Some q1 \<and> quantile xs (3/4) = Some q3 \<and>
                      q1 - 1.5 * (q3 - q1) \<le> v \<and> v \<le> q3 + 1.5 * (q3 - q1))}"
    using in_bounds_iff [of _ xs] by auto
  show ?thesis
    using assms K
    by (simp add: remove_price_outliers_def alloc_def Let_def loc_rows_at)
qed

lemma select_map_filter: "select (map P xs) xs = filter P xs"
  by (induction xs) simp_all

lemma getitem_loc:
  "getitem (loc df keep) name =
     (case getitem df name of Inl e \<Rightarrow> Inl e | Inr c \<Rightarrow> Inr (select_col keep c))"
  by (simp add: getitem_def loc_def map_of_map split: option.splits)

lemma filter_None_disjoint:
  assumes "\<not> P None"
  shows "length (filter (\<lambda>c. c = None) xs) + length (filter P xs) \<le> length xs"
  using assms by (induction xs) auto

text \<open>
  Claim C10. A row whose price is missing is never in the output of the outlier filter,
  whatever the bounds are: the filtered price column has no missing cell, and the output
  is shorter than the input by at least the number of missing prices.
\<close>

theorem remove_price_outliers_drops_missing:
  assumes "getitem (objs h df) price_col = Inr (Float64 xs)"
  shows "\<exists>h' ys. remove_price_outliers h df price_col = (h', Inr (fresh h)) \<and>
           getitem (objs h' (fresh h)) price_col = Inr (Float64 ys) \<and>
           None \<notin> set ys \<and>
           length (filter (\<lambda>c. c = None) xs) + length ys \<le> length xs"
proof -
  let ?P = "\<lambda>v. fge v (lower_bound xs) \<and> fle v (upper_bound xs)"
  have nP: "\<not> ?P None"
    by (simp add: fge_def)
  have "None \<notin> set (filter ?P xs)"
    using nP by auto
  moreover have "length (filter (\<lambda>c. c = None) xs) + length (filter ?P xs) \<le> length xs"
    using nP by (rule filter_None_disjoint)
  ultimately show ?thesis
    using assms
    by (simp add: remove_price_outliers_def alloc_def Let_def getitem_loc select_map_filter)
qed

lemma sorted_prices8: "sort (dropna_vals prices8) = [10, 20, 20, 30, 1000]"
  by (simp add: prices8_def dropna_vals_def List.map_filter_simps)

lemma q1_prices8: "quantile prices8 (1/4) = Some 20"
  by (simp add: quantile_def sorted_prices8 Let_def)

lemma q3_prices8: "quantile prices8 (3/4) = Some 30"
  by (simp add: quantile_def sorted_prices8 Let_def)

lemma bounds_prices8: "lower_bound prices8 = Some 5" "upper_bound prices8 = Some 45"
  by (simp_all add: upper_bound_def lower_bound_def q1_prices8 q3_prices8 fsub_def fadd_def fmul_def Let_def)

lemma getitem_frame8: "getitem (objs heap8 0) ''price'' = Inr (Float64 prices8)"
  by (simp add: getitem_def heap8_def frame8_def)

text \<open>
  Claim C8. On the prices 10, 20, 20, 30, 1000 the filter computes \<open>Q1 = 20\<close>,
  \<open>Q3 = 30\<close>, \<open>IQR = 10\<close> and the upper bound 45, removes the row with price 1000
  and returns a frame of exactly four rows.
\<close>

theorem remove_price_outliers_example:
  "quantile prices8 (1/4) = Some 20 \<and> quantile prices8 (3/4) = Some 30 \<and>
   fsub (quantile prices8 (3/4)) (quantile prices8 (1/4)) = Some 10 \<and>
   upper_bound prices8 = Some 45 \<and>
   (\<exists>h'. remove_price_outliers heap8 0 ''price'' = (h', Inr 1) \<and>
      index (objs h' 1) = [0, 1, 2, 3] \<and>
      length (index (objs h' 1)) = 4 \<and>
      getitem (objs h' 1) ''price'' = Inr (Float64 [Some 10, Some 20, Some 20, Some 30]) \<and>
      getitem (objs h' 1) ''neighbourhood_group'' =
        Inr (Object [Some (PyStr ''Bronx''), Some (PyStr ''Bronx''), Some (PyStr ''Queens''),
                     Some (PyStr ''Queens'')]))"
proof -
  have keep: "map (\<lambda>v. fge v (lower_bound prices8) \<and> fle v (upper_bound prices8)) prices8
      = [True, True, True, True, False]"
    by (simp add: bounds_prices8 [unfolded prices8_def] prices8_def fge_def fle_def)
  have run: "remove_price_outliers heap8 0 ''price'' =
      (heap8\<lparr>objs := (objs heap8)(1 := loc frame8 [True, True, True, True, False]), fresh := 2\<rparr>, Inr 1)"
    using getitem_frame8 keep
    by (simp add: remove_price_outliers_def alloc_def Let_def) (simp add: heap8_def)
  have fr: "loc frame8 [True, True, True, True, False] =
     \<lparr>index = [0, 1, 2, 3],
      columns =
        [(''neighbourhood_group'',
            Object [Some (PyStr ''Bronx''), Some (PyStr ''Bronx''), Some (PyStr ''Queens''),
                    Some (PyStr ''Queens'')]),
         (''room_type'',
            Object [Some (PyStr ''Private room''), Some (PyStr ''Shared room''),
                    Some (PyStr ''Private room''), Some (PyStr ''Shared room'')]),
         (''price'', Float64 [Some 10, Some 20, Some 20, Some 30])]\<rparr>"
    by (simp add: loc_def frame8_def prices8_def)
  show ?thesis
    by (simp add: q1_prices8 q3_prices8 bounds_prices8 fsub_def run fr getitem_def)
qed

theorem remove_price_outliers_keeps_exactly_in_bounds_witness:
  "\<exists>h'. remove_price_outliers heap8 0 ''price'' = (h', Inr (fresh heap8)) \<and>
           objs h' (fresh heap8) =
             rows_at (objs heap8 0)
               {i. i < length prices8 \<and>
                   (\<exists>v q1 q3. prices8 ! i = Some v \<and>
                      quantile prices8 (1/4) = Some q1 \<and> quantile prices8 (3/4) = Some q3 \<and>
                      q1 - 1.5 * (q3 - q1) \<le> v \<and> v \<le> q3 + 1.5 * (q3 - q1))}"
  using remove_price_outliers_keeps_exactly_in_bounds [OF getitem_frame8] .

lemma remove_price_outliers_frame3:
  "remove_price_outliers heap3 0 ''price'' =
     (heap3\<lparr>objs := (objs heap3)(1 := loc frame3 [True, False, True]), fresh := 2\<rparr>, Inr 1)"
proof -
  have q: "quantile [Some 1, None, Some 3] (1/4) = Some (3/2)"
          "quantile [Some 1, None, Some 3] (3/4) = Some (5/2)"
    by (simp_all add: quantile_def Let_def dropna_vals_def List.map_filter_simps)
  have b: "lower_bound [Some 1, None, Some 3] = Some 0" "upper_bound [Some 1, None, Some 3] = Some 4"
    by (simp_all add: lower_bound_def upper_bound_def q fsub_def fadd_def fmul_def Let_def)
  have g: "getitem (objs heap3 0) ''price'' = Inr (Float64 [Some 1, None, Some 3])"
    by (simp add: getitem_def heap3_def frame3_def)
  show ?thesis
    using g by (simp add: remove_price_outliers_def alloc_def Let_def b fge_def fle_def)
               (simp add: heap3_def)
qed

theorem remove_price_outliers_drops_missing_witness:
  "\<exists>h' ys. remove_price_outliers heap3 0 ''price'' = (h', Inr (fresh heap3)) \<and>
           getitem (objs h' (fresh heap3)) ''price'' = Inr (Float64 ys) \<and>
           None \<notin> set ys \<and>
           length (filter (\<lambda>c. c = None) [Some 1, None, Some (3::real)]) + length ys
             \<le> length [Some 1, None, Some (3::real)] \<and>
           ys = [Some 1, Some 3] \<and>
           index (objs h' (fresh heap3)) = [0, 2]"
proof -
  have g: "getitem (objs heap3 0) ''price'' = Inr (Float64 [Some 1, None, Some 3])"
    by (simp add: getitem_def heap3_def frame3_def)
  from remove_price_outliers_drops_missing [OF g] obtain h' ys where
    run: "remove_price_outliers heap3 0 ''price'' = (h', Inr (fresh heap3))"
    and col: "getitem (objs h' (fresh heap3)) ''price'' = Inr (Float64 ys)"
    and rest: "None \<notin> set ys"
      "length (filter (\<lambda>c. c = None) [Some 1, None, Some (3::real)]) + length ys
         \<le> length [Some 1, None, Some (3::real)]"
    by blast
  have f: "fresh heap3 = 1"
    by (simp add: heap3_def)
  have h': "h' = heap3\<lparr>objs := (objs heap3)(1 := loc frame3 [True, False, True]), fresh := 2\<rparr>"
    using run unfolding remove_price_outliers_frame3 by (elim Pair_inject) (erule sym)
  have fr: "objs h' (fresh heap3) = loc frame3 [True, False, True]"
    by (simp add: h' f)
  have "getitem (loc frame3 [True, False, True]) ''price'' = Inr (Float64 [Some 1, Some 3])"
    by (simp add: getitem_def loc_def frame3_def)
  with col have ys: "ys = [Some 1, Some 3]"
    by (simp add: fr)
  have ix: "index (objs h' (fresh heap3)) = [0, 2]"
    by (simp add: fr loc_def frame3_def)
  from run col rest ys ix show ?thesis
    by blast
qed

section \<open>Loading and cleaning: the cleaned frame\<close>

lemma getitem_setitem:
  "getitem (objs (setitem h r name col) r) name' =
     (if name' = name then Inr col else getitem (objs h r) name')"
  by (simp add: getitem_def setitem_def update_conv')

lemma setitem_other: "r' \<noteq> r \<Longrightarrow> objs (setitem h r name col) r' = objs h r'"
  by (simp add: setitem_def)

lemma index_setitem: "index (objs (setitem h r name col) r) = index (objs h r)"
  by (simp add: setitem_def)

lemma fresh_setitem: "fresh (setitem h r name col) = fresh h"
  by (simp add: setitem_def)

lemma getitem_rows_at:
  "getitem (rows_at df K) name =
     (case getitem df name of Inl e \<Rightarrow> Inl e | Inr c \<Rightarrow> Inr (nths_col c K))"
  by (simp add: getitem_def rows_at_def map_of_map split: option.splits)

lemma isna_nths_col: "isna (nths_col c K) = nths (isna c) K"
  by (cases c) (simp_all add: nths_map)

lemma isna_fillna0: "fillna0 c = Inr c' \<Longrightarrow> isna c' = map (\<lambda>_. False) (isna c)"
  by (cases c) (auto split: option.splits)

lemma fillna0_cells:
  "fillna0 c = Inr c' \<Longrightarrow> i < length (isna c) \<Longrightarrow>
     (if isna c ! i then is_zero c' i else cell_eq c c' i)"
  by (cases c) (auto split: option.splits)

lemma dropna_two:
  assumes "getitem df a = Inr ca" "getitem df b = Inr cb"
  shows "dropna df [a, b] =
     Inr (rows_at df {i. i < length (index df) \<and> i < length (isna ca) \<and> \<not> isna ca ! i \<and>
                         i < length (isna cb) \<and> \<not> isna cb ! i})"
proof -
  have a: "map_of (columns df) a = Some ca" and b: "map_of (columns df) b = Some cb"
    using assms by (auto simp: getitem_def split: option.splits)
  let ?keep = "map (\<lambda>i. list_all (\<lambda>c. i < length (isna c) \<and> \<not> isna c ! i) [ca, cb])
                   [0..<length (index df)]"
  have "{i. i < length ?keep \<and> ?keep ! i} =
        {i. i < length (index df) \<and> i < length (isna ca) \<and> \<not> isna ca ! i \<and>
                         i < length (isna cb) \<and> \<not> isna cb ! i}"
    by auto
  then show ?thesis
    by (simp add: dropna_def a b loc_rows_at)
qed

text \<open>
  Claim C2. Whenever the table that was read has the four columns and \<open>fillna\<close> applies
  to the review rate, \<open>load_data\<close> returns a frame made of the rows \<open>K\<close> in which neither
  \<open>neighbourhood_group\<close> nor \<open>room_type\<close> is missing: these two columns have no missing
  cell in it, \<open>reviews_per_month\<close> has no missing cell, and every cell of
  \<open>reviews_per_month\<close> that was missing in the input is exactly 0 (the others are
  unchanged).
\<close>

theorem load_data_cleans:
  assumes csv: "read_csv file_path = Inr raw"
    and lr: "getitem raw ''last_review'' = Inr lr"
    and rpm: "getitem raw ''reviews_per_month'' = Inr rpm"
    and fill: "fillna0 rpm = Inr filled"
    and ng: "getitem raw ''neighbourhood_group'' = Inr ng"
    and rt: "getitem raw ''room_type'' = Inr rt"
    and K: "K = {i. i < length (index raw) \<and> i < length (isna ng) \<and> \<not> isna ng ! i \<and>
                    i < length (isna rt) \<and> \<not> isna rt ! i}"
  shows "\<exists>h' r. load_data read_csv to_datetime h file_path = (h', Inr r) \<and>
           index (objs h' r) = nths (index raw) K \<and>
           getitem (objs h' r) ''neighbourhood_group'' = Inr (nths_col ng K) \<and>
           True \<notin> set (isna (nths_col ng K)) \<and>
           getitem (objs h' r) ''room_type'' = Inr (nths_col rt K) \<and>
           True \<notin> set (isna (nths_col rt K)) \<and>
           getitem (objs h' r) ''reviews_per_month'' = Inr (nths_col filled K) \<and>
           True \<notin> set (isna (nths_col filled K)) \<and>
           (\<forall>i < length (isna rpm). if isna rpm ! i then is_zero filled i else cell_eq rpm filled i)"
proof -
  define h0 where "h0 = h\<lparr>objs := (objs h)(fresh h := raw), fresh := Suc (fresh h)\<rparr>"
  define h1 where "h1 = setitem h0 (fresh h) ''last_review'' (Datetime64 (to_datetime lr))"
  define h2 where "h2 = setitem h1 (fresh h) ''reviews_per_month'' filled"
  have raw0: "objs h0 (fresh h) = raw"
    by (simp add: h0_def)
  have g1: "getitem (objs h1 (fresh h)) ''reviews_per_month'' = Inr rpm"
    using rpm by (simp add: h1_def getitem_setitem raw0)
  have g2: "getitem (objs h2 (fresh h)) ''neighbourhood_group'' = Inr ng"
       "getitem (objs h2 (fresh h)) ''room_type'' = Inr rt"
       "getitem (objs h2 (fresh h)) ''reviews_per_month'' = Inr filled"
    using ng rt by (simp_all add: h2_def h1_def getitem_setitem raw0)
  have i2: "index (objs h2 (fresh h)) = index raw"
    by (simp add: h2_def h1_def index_setitem raw0)
  have f2: "fresh h2 = Suc (fresh h)"
    by (simp add: h2_def h1_def fresh_setitem h0_def)
  have d: "dropna (objs h2 (fresh h)) [''neighbourhood_group'', ''room_type''] =
             Inr (rows_at (objs h2 (fresh h)) K)"
    using dropna_two [OF g2(1) g2(2)] by (simp add: i2 K)
  have run: "load_data read_csv to_datetime h file_path =
      (h2\<lparr>objs := (objs h2)(Suc (fresh h) := rows_at (objs h2 (fresh h)) K),
          fresh := Suc (Suc (fresh h))\<rparr>, Inr (Suc (fresh h)))"
    unfolding load_data_def
    using lr g1 d f2
    by (simp add: csv alloc_def Let_def fill raw0 flip: h0_def h1_def h2_def)
  have na_ng: "True \<notin> set (isna (nths_col ng K))"
    by (auto simp: isna_nths_col set_nths K)
  have na_rt: "True \<notin> set (isna (nths_col rt K))"
    by (auto simp: isna_nths_col set_nths K)
  have na_rpm: "True \<notin> set (isna (nths_col filled K))"
    by (auto simp: isna_nths_col set_nths isna_fillna0 [OF fill])
  have cells: "\<forall>i < length (isna rpm). if isna rpm ! i then is_zero filled i else cell_eq rpm filled i"
    using fillna0_cells [OF fill] by blast
  show ?thesis
    using na_ng na_rt na_rpm cells
    by (simp add: run getitem_rows_at g2) (simp add: rows_at_def i2)
qed


lemma K_raw2:
  "{i. i < length (index raw2) \<and>
       i < length (isna (Object [Some (PyStr ''Bronx''), None, Some (PyStr ''Queens'')])) \<and>
       \<not> isna (Object [Some (PyStr ''Bronx''), None, Some (PyStr ''Queens'')]) ! i \<and>
       i < length (isna (Object [Some (PyStr ''Private room''), Some (PyStr ''Shared room''),
                                 Some (PyStr ''Private room'')])) \<and>
       \<not> isna (Object [Some (PyStr ''Private room''), Some (PyStr ''Shared room''),
                                 Some (PyStr ''Private room'')]) ! i} = {0, 2}"
  by (auto simp: raw2_def less_Suc_eq numeral_2_eq_2)

theorem load_data_cleans_witness:
  "\<exists>h' r. load_data (\<lambda>_. Inr raw2) (\<lambda>c. map (\<lambda>_. None) (isna c)) heap8 ''AB_NYC_2019.csv''
             = (h', Inr r) \<and>
     index (objs h' r) = [0, 2] \<and>
     getitem (objs h' r) ''neighbourhood_group'' = Inr (Object [Some (PyStr ''Bronx''), Some (PyStr ''Queens'')]) \<and>
     getitem (objs h' r) ''reviews_per_month'' = Inr (Float64 [Some 0, Some (1/2)])"
proof -
  have "\<exists>h' r. load_data (\<lambda>_. Inr raw2) (\<lambda>c. map (\<lambda>_. None) (isna c)) heap8 ''AB_NYC_2019.csv''
             = (h', Inr r) \<and>
           index (objs h' r) = nths (index raw2) {0, 2} \<and>
           getitem (objs h' r) ''neighbourhood_group'' =
             Inr (nths_col (Object [Some (PyStr ''Bronx''), None, Some (PyStr ''Queens'')]) {0, 2}) \<and>
           True \<notin> set (isna (nths_col (Object [Some (PyStr ''Bronx''), None, Some (PyStr ''Queens'')]) {0, 2})) \<and>
           getitem (objs h' r) ''room_type'' =
             Inr (nths_col (Object [Some (PyStr ''Private room''), Some (PyStr ''Shared room''),
                                 Some (PyStr ''Private room'')]) {0, 2}) \<and>
           True \<notin> set (isna (nths_col (Object [Some (PyStr ''Private room''), Some (PyStr ''Shared room''),
                                 Some (PyStr ''Private room'')]) {0, 2})) \<and>
           getitem (objs h' r) ''reviews_per_month'' = Inr (nths_col (Float64 [Some 0, Some 2, Some (1/2)]) {0, 2}) \<and>
           True \<notin> set (isna (nths_col (Float64 [Some 0, Some 2, Some (1/2)]) {0, 2})) \<and>
           (\<forall>i < length (isna (Float64 [None, Some 2, Some (1/2)])).
               if isna (Float64 [None, Some 2, Some (1/2)]) ! i
               then is_zero (Float64 [Some 0, Some 2, Some (1/2)]) i
               else cell_eq (Float64 [None, Some 2, Some (1/2)]) (Float64 [Some 0, Some 2, Some (1/2)]) i)"
    by (rule load_data_cleans [where raw = raw2 and lr = "Object [Some (PyStr ''2019-05-21''), None, Some (PyStr ''n/a'')]"])
       (simp_all add: getitem_def K_raw2 [symmetric], simp_all add: raw2_def)
  then show ?thesis
    by (auto simp: raw2_def nths_Cons)
qed

section \<open>The feature deriver: z-scores\<close>

lemma dropna_vals_Nil [simp]: "dropna_vals [] = []"
  by (simp add: dropna_vals_def List.map_filter_simps)

lemma dropna_vals_Cons [simp]:
  "dropna_vals (c # cs) = (case c of None \<Rightarrow> dropna_vals cs | Some v \<Rightarrow> v # dropna_vals cs)"
  by (simp add: dropna_vals_def List.map_filter_simps split: option.splits)

lemma dropna_vals_zscore:
  assumes "s \<noteq> 0"
  shows "dropna_vals (map (\<lambda>c. fdiv (fsub c (Some m)) (Some s)) xs) =
         map (\<lambda>x. (x - m) / s) (dropna_vals xs)"
  using assms by (induction xs) (auto simp: fdiv_def fsub_def split: option.splits)

lemma sum_list_shift_scale:
  "sum_list (map (\<lambda>x. (x - m) / s) v) = (sum_list v - real (length v) * m) / (s::real)"
  by (induction v) (simp_all add: field_simps add_divide_distrib diff_divide_distrib)

lemma sum_list_squares_scale:
  "sum_list (map (\<lambda>x. ((x - m) / s)\<^sup>2) v) = sum_list (map (\<lambda>x. (x - m)\<^sup>2) v) / (s::real)\<^sup>2"
  by (induction v) (simp_all add: power_divide add_divide_distrib)

lemma sum_squares_nonneg: "0 \<le> sum_list (map (\<lambda>x. (x - m)\<^sup>2) (v::real list))"
  by (rule sum_list_nonneg) auto

lemma series_std_SomeD:
  assumes "series_std ddof xs = Some s"
  shows "ddof < length (dropna_vals xs) \<and>
         s = sqrt (sum_list (map (\<lambda>x. (x - sum_list (dropna_vals xs) / real (length (dropna_vals xs)))\<^sup>2)
                       (dropna_vals xs)) / real (length (dropna_vals xs) - ddof))"
  using assms by (auto simp: series_std_def Let_def split: if_splits)

lemma series_mean_Some:
  "dropna_vals xs \<noteq> [] \<Longrightarrow>
     series_mean xs = Some (sum_list (dropna_vals xs) / real (length (dropna_vals xs)))"
  by (simp add: series_mean_def Let_def)

lemma zscore_mean_std:
  assumes std: "series_std 0 xs = Some s" and nz: "s \<noteq> 0"
  defines "zs \<equiv> map (\<lambda>c. fdiv (fsub c (series_mean xs)) (series_std 0 xs)) xs"
  shows "series_mean zs = Some 0" and "series_std 0 zs = Some 1"
proof -
  let ?v = "dropna_vals xs"
  let ?n = "real (length ?v)"
  let ?m = "sum_list ?v / ?n"
  let ?ss = "sum_list (map (\<lambda>x. (x - ?m)\<^sup>2) ?v)"
  from series_std_SomeD [OF std] have n: "0 < length ?v" and s: "s = sqrt (?ss / ?n)"
    by simp_all
  have ne: "?v \<noteq> []" using n by auto
  have s2: "s\<^sup>2 = ?ss / ?n"
    unfolding s using sum_squares_nonneg [of ?m ?v] by simp
  have zv: "dropna_vals zs = map (\<lambda>x. (x - ?m) / s) ?v"
    unfolding zs_def std series_mean_Some [OF ne] by (rule dropna_vals_zscore [OF nz])
  have zne: "dropna_vals zs \<noteq> []" using ne by (simp add: zv)
  have sum0: "sum_list (dropna_vals zs) = 0"
    using n by (simp add: zv sum_list_shift_scale)
  show "series_mean zs = Some 0"
    using zne by (simp add: series_mean_def Let_def sum0)
  have "sum_list (map (\<lambda>x. (x - 0)\<^sup>2) (dropna_vals zs)) = ?ss / s\<^sup>2"
    by (simp add: zv comp_def sum_list_squares_scale)
  also have "\<dots> = (s\<^sup>2 * ?n) / s\<^sup>2"
    using n by (simp add: s2)
  also have "\<dots> = ?n"
    using nz by simp
  also have "\<dots> = real (length (dropna_vals zs))"
    by (simp add: zv)
  finally have ssz: "sum_list (map (\<lambda>x. (x - 0)\<^sup>2) (dropna_vals zs)) = real (length (dropna_vals zs))" .
  show "series_std 0 zs = Some 1"
    using zne by (simp add: series_std_def Let_def sum0 ssz [simplified])
qed


lemma normalize_zscore_column:
  assumes "getitem (objs h df) price_col = Inr (Float64 xs)"
  shows "getitem (objs (fst (normalize_and_discretize h df price_col)) df) ''price_zscore'' =
           Inr (Float64 (map (\<lambda>c. fdiv (fsub c (series_mean xs)) (series_std 0 xs)) xs))"
  unfolding normalize_and_discretize_def using assms
  by (simp add: Let_def getitem_setitem split: sum.splits)

lemma normalize_other_columns:
  assumes "name \<noteq> ''price_zscore''" "name \<noteq> ''price_bin''"
  shows "getitem (objs (fst (normalize_and_discretize h df price_col)) df) name =
           getitem (objs h df) name"
  unfolding normalize_and_discretize_def using assms
  by (simp add: Let_def getitem_setitem split: sum.splits)

text \<open>
  Claim C3. When the price column has a non-zero population standard deviation, the
  \<open>price_zscore\<close> column that \<open>normalize_and_discretize\<close> writes has mean exactly 0 and
  population standard deviation (divisor N) exactly 1, in exact arithmetic.
\<close>

theorem price_zscore_standardized:
  assumes "getitem (objs h df) price_col = Inr (Float64 xs)"
    and "series_std 0 xs = Some s" and "s \<noteq> 0"
  shows "\<exists>zs. getitem (objs (fst (normalize_and_discretize h df price_col)) df) ''price_zscore''
                 = Inr (Float64 zs) \<and>
              series_mean zs = Some 0 \<and> series_std 0 zs = Some 1"
  using normalize_zscore_column [OF assms(1)] zscore_mean_std [OF assms(2,3)] by simp

lemma getitem_frame3: "getitem (objs heap3 0) ''price'' = Inr (Float64 [Some 1, None, Some 3])"
  by (simp add: getitem_def heap3_def frame3_def)

lemma std0_frame3: "series_std 0 [Some 1, None, Some 3] = Some 1"
  by (simp add: series_std_def Let_def)

theorem price_zscore_standardized_witness:
  "\<exists>zs. getitem (objs (fst (normalize_and_discretize heap3 0 ''price'')) 0) ''price_zscore''
                 = Inr (Float64 zs) \<and>
              series_mean zs = Some 0 \<and> series_std 0 zs = Some 1"
  using price_zscore_standardized [OF getitem_frame3 std0_frame3] by simp

subsection \<open>Population and sample standard deviation\<close>

lemma map_of_select_dtypes_number:
  "map_of (columns d) name = Some (Float64 xs) \<Longrightarrow> map_of (select_dtypes_number d) name = Some xs"
proof -
  have "map_of cs name = Some (Float64 xs) \<Longrightarrow>
        map_of (List.map_filter (\<lambda>(name, col). case col of Float64 xs \<Rightarrow> Some (name, xs) | _ \<Rightarrow> None) cs) name
          = Some xs" for cs
    by (induction cs) (auto simp: List.map_filter_simps split: column.splits if_splits)
  then show "map_of (columns d) name = Some (Float64 xs) \<Longrightarrow> map_of (select_dtypes_number d) name = Some xs"
    by (simp add: select_dtypes_number_def)
qed

lemma descriptive_statistics_row:
  assumes "getitem (objs h df) name = Inr (Float64 xs)"
  shows "\<exists>stats. descriptive_statistics h df = Inr stats \<and> map_of stats name = Some (describe xs)"
proof -
  have "map_of (columns (objs h df)) name = Some (Float64 xs)"
    using assms by (auto simp: getitem_def split: option.splits)
  then have m: "map_of (select_dtypes_number (objs h df)) name = Some xs"
    by (rule map_of_select_dtypes_number)
  then have "select_dtypes_number (objs h df) \<noteq> []"
    by auto
  then show ?thesis
    using m by (simp add: descriptive_statistics_def Let_def map_of_map)
qed

lemma std_population_sample:
  assumes "2 \<le> length (dropna_vals xs)"
  shows "\<exists>s0 s1. series_std 0 xs = Some s0 \<and> series_std 1 xs = Some s1 \<and>
           s0 = s1 * sqrt (real (length (dropna_vals xs) - 1) / real (length (dropna_vals xs))) \<and>
           (s0 \<noteq> 0 \<longrightarrow> s0 < s1)"
proof -
  let ?v = "dropna_vals xs"
  let ?n = "length ?v"
  let ?ss = "sum_list (map (\<lambda>x. (x - sum_list ?v / real ?n)\<^sup>2) ?v)"
  have ne: "?v \<noteq> []"
    using assms by (cases "dropna_vals xs") simp_all
  have s0: "series_std 0 xs = Some (sqrt (?ss / real ?n))"
    using ne by (simp add: series_std_def Let_def)
  have s1: "series_std 1 xs = Some (sqrt (?ss / real (?n - 1)))"
    using assms ne by (simp add: series_std_def Let_def)
  have pos: "0 < real (?n - 1)" "0 < real ?n" "real (?n - 1) < real ?n"
    using assms ne by simp_all
  have "sqrt (?ss / real (?n - 1)) * sqrt (real (?n - 1) / real ?n)
          = sqrt (?ss / real (?n - 1) * (real (?n - 1) / real ?n))"
    by (rule real_sqrt_mult [symmetric])
  also have "?ss / real (?n - 1) * (real (?n - 1) / real ?n) = ?ss / real ?n"
    using pos by simp
  finally have factor: "sqrt (?ss / real ?n) = sqrt (?ss / real (?n - 1)) * sqrt (real (?n - 1) / real ?n)"
    by simp
  have lt: "sqrt (?ss / real ?n) < sqrt (?ss / real (?n - 1))" if "sqrt (?ss / real ?n) \<noteq> 0"
  proof -
    have "?ss \<noteq> 0" using that by auto
    then have "0 < ?ss" using sum_squares_nonneg [of "sum_list ?v / real ?n" ?v] by simp
    then have "?ss / real ?n < ?ss / real (?n - 1)"
      using pos by (simp add: frac_less2)
    then show ?thesis by simp
  qed
  show ?thesis
    using s0 s1 factor lt by blast
qed

text \<open>
  Claim C4. The z-scores are computed with the population standard deviation (divisor N)
  and the summary table reports the sample standard deviation (divisor N - 1) of the same
  column: with at least two prices and a non-zero deviation, the first is the second times
  \<open>sqrt ((N - 1) / N)\<close>, and strictly smaller.
\<close>

theorem zscore_std_versus_reported_std:
  assumes col: "getitem (objs h df) price_col = Inr (Float64 xs)"
    and n: "2 \<le> length (dropna_vals xs)"
    and nz: "series_std 0 xs \<noteq> Some 0"
    and names: "price_col \<noteq> ''price_zscore''" "price_col \<noteq> ''price_bin''"
    and h': "h' = fst (normalize_and_discretize h df price_col)"
  shows "\<exists>s0 s1 stats row.
           getitem (objs h' df) ''price_zscore'' =
             Inr (Float64 (map (\<lambda>c. fdiv (fsub c (series_mean xs)) (Some s0)) xs)) \<and>
           series_std 0 xs = Some s0 \<and>
           descriptive_statistics h' df = Inr stats \<and>
           map_of stats price_col = Some row \<and> s_std row = Some s1 \<and>
           s0 = s1 * sqrt (real (length (dropna_vals xs) - 1) / real (length (dropna_vals xs))) \<and>
           s0 \<noteq> s1"
proof -
  from std_population_sample [OF n] obtain s0 s1 where
    s: "series_std 0 xs = Some s0" "series_std 1 xs = Some s1"
       "s0 = s1 * sqrt (real (length (dropna_vals xs) - 1) / real (length (dropna_vals xs)))"
       "s0 \<noteq> 0 \<longrightarrow> s0 < s1"
    by blast
  have z: "getitem (objs h' df) ''price_zscore'' =
             Inr (Float64 (map (\<lambda>c. fdiv (fsub c (series_mean xs)) (Some s0)) xs))"
    using normalize_zscore_column [OF col] by (simp add: h' s(1))
  have "getitem (objs h' df) price_col = Inr (Float64 xs)"
    using normalize_other_columns [OF names] col by (simp add: h')
  from descriptive_statistics_row [OF this] obtain stats where
    st: "descriptive_statistics h' df = Inr stats" "map_of stats price_col = Some (describe xs)"
    by blast
  have "s_std (describe xs) = Some s1"
    using s(2) by (simp add: describe_def)
  moreover have "s0 \<noteq> s1"
    using s(1,4) nz by auto
  ultimately show ?thesis
    using z s(1,3) st by blast
qed


theorem zscore_std_versus_reported_std_witness:
  "\<exists>s0 s1 stats row.
           getitem (objs (fst (normalize_and_discretize heap3 0 ''price'')) 0) ''price_zscore'' =
             Inr (Float64 (map (\<lambda>c. fdiv (fsub c (series_mean [Some 1, None, Some 3])) (Some s0))
                             [Some 1, None, Some 3])) \<and>
           series_std 0 [Some 1, None, Some 3] = Some s0 \<and>
           descriptive_statistics (fst (normalize_and_discretize heap3 0 ''price'')) 0 = Inr stats \<and>
           map_of stats ''price'' = Some row \<and> s_std row = Some s1 \<and>
           s0 = s1 * sqrt (real (length (dropna_vals [Some 1, None, Some 3]) - 1) /
                           real (length (dropna_vals [Some 1, None, Some 3]))) \<and>
           s0 \<noteq> s1"
  by (rule zscore_std_versus_reported_std [OF getitem_frame3])
     (simp_all add: std0_frame3)

subsection \<open>A column without spread\<close>

lemma std_zero_all_equal:
  assumes "series_std 0 xs = Some 0"
  shows "dropna_vals xs \<noteq> []"
    and "\<forall>x \<in> set (dropna_vals xs). x = sum_list (dropna_vals xs) / real (length (dropna_vals xs))"
proof -
  let ?v = "dropna_vals xs"
  let ?m = "sum_list ?v / real (length ?v)"
  from series_std_SomeD [OF assms] have n: "0 < length ?v"
    by simp
  from series_std_SomeD [OF assms]
  have "0 = sqrt (sum_list (map (\<lambda>x. (x - ?m)\<^sup>2) ?v) / real (length ?v - 0))"
    by (rule conjunct2)
  then have s: "sqrt (sum_list (map (\<lambda>x. (x - ?m)\<^sup>2) ?v) / real (length ?v)) = 0"
    by (simp only: diff_zero)
  show "?v \<noteq> []" using n by auto
  note s
  then have "sum_list (map (\<lambda>x. (x - ?m)\<^sup>2) ?v) / real (length ?v) = 0"
    by (simp only: real_sqrt_eq_zero_cancel_iff)
  with n have "sum_list (map (\<lambda>x. (x - ?m)\<^sup>2) ?v) = 0"
    by simp
  then have "\<forall>y \<in> set (map (\<lambda>x. (x - ?m)\<^sup>2) ?v). y = 0"
    by (subst (asm) sum_list_nonneg_eq_0_iff) auto
  then show "\<forall>x \<in> set ?v. x = ?m"
    by auto
qed

lemma dropna_vals_member: "x \<in> set (dropna_vals xs) \<longleftrightarrow> Some x \<in> set xs"
  by (induction xs) (auto split: option.splits)

lemma std_zero_deviation:
  assumes "series_std 0 xs = Some 0" and "c \<in> set xs"
  shows "fsub c (series_mean xs) = None \<or> fsub c (series_mean xs) = Some 0"
proof (cases c)
  case None
  then show ?thesis by (simp add: fsub_def)
next
  case (Some x)
  then have "x \<in> set (dropna_vals xs)"
    using assms(2) by (simp add: dropna_vals_member)
  then show ?thesis
    using std_zero_all_equal [OF assms(1)] Some
    by (simp add: fsub_def series_mean_Some)
qed

lemma quantile_const:
  assumes ne: "dropna_vals xs \<noteq> []" and all: "\<forall>x \<in> set (dropna_vals xs). x = m"
    and q: "0 \<le> q" "q \<le> 1"
  shows "quantile xs q = Some m"
proof -
  let ?s = "sort (dropna_vals xs)"
  let ?n = "length ?s"
  have n: "0 < ?n" using ne by simp
  have el: "?s ! i = m" if "i < ?n" for i
    using all that by (metis nth_mem set_sort)
  have "real (?n - 1) * q \<le> real (?n - 1)"
    using q by (simp add: mult_left_le)
  then have "\<lfloor>real (?n - 1) * q\<rfloor> \<le> int (?n - 1)"
    by (simp add: floor_le_iff)
  then have i: "nat \<lfloor>real (?n - 1) * q\<rfloor> < ?n"
    using n by linarith
  have "?n - 1 < ?n"
    using n by simp
  then have j: "min (nat \<lfloor>real (?n - 1) * q\<rfloor> + 1) (?n - 1) < ?n"
    by (rule min.strict_coboundedI2)
  show ?thesis
    unfolding quantile_def Let_def using ne el [OF i] el [OF j] by simp
qed

lemma upt_0_4: "[0..<3 + 1] = [0, 1, 2, 3::nat]"
  by (simp add: upt_rec)

lemma tertile_edges:
  "map (\<lambda>k. quantile xs (real k / real 3)) [0..<3 + 1] =
     [quantile xs 0, quantile xs (1/3), quantile xs (2/3), quantile xs 1]"
  unfolding upt_0_4 by simp

lemma qcut_no_spread:
  assumes "series_std 0 xs = Some 0"
  shows "qcut xs 3 labels = Inl ValueError"
proof -
  from std_zero_all_equal [OF assms] obtain m where
    ne: "dropna_vals xs \<noteq> []" and all: "\<forall>x \<in> set (dropna_vals xs). x = m"
    by blast
  have "quantile xs (real 0 / real 3) = quantile xs (real 1 / real 3)"
    using quantile_const [OF ne all] by simp
  then have "\<not> distinct [quantile xs 0, quantile xs (1/3), quantile xs (2/3), quantile xs 1]"
    by simp
  then show ?thesis
    unfolding qcut_def Let_def tertile_edges by simp
qed

lemma qcut_all_missing:
  assumes "dropna_vals xs = []"
  shows "qcut xs 3 labels = Inl ValueError"
proof -
  have "\<not> distinct [quantile xs 0, quantile xs (1/3), quantile xs (2/3), quantile xs 1]"
    by (simp add: quantile_None [OF assms])
  then show ?thesis
    unfolding qcut_def Let_def tertile_edges by simp
qed

lemma zscore_no_spread:
  "map (\<lambda>c. fdiv (fsub c mean) (Some 0)) xs = map (\<lambda>_. None) xs"
  by (simp add: fdiv_def split: option.splits)

lemma dropna_vals_all_None [simp]: "dropna_vals (map (\<lambda>_. None) xs) = []"
  by (induction xs) simp_all

text \<open>
  Claim C5, as amended. When the population standard deviation of the price column is
  zero, the feature derivation raises no \<open>DegenerateDistributionError\<close>: the division
  \<open>0 / 0\<close> silently gives NaN, every cell of \<open>price_zscore\<close> is missing, and the call then
  fails in \<open>qcut\<close> with \<open>ValueError\<close> (the bin edges coincide).
\<close>

theorem no_spread_zscore_nan_then_ValueError:
  assumes "getitem (objs h df) price_col = Inr (Float64 xs)"
    and "series_std 0 xs = Some 0"
  shows "\<exists>h'. normalize_and_discretize h df price_col = (h', Inl ValueError) \<and>
           getitem (objs h' df) ''price_zscore'' = Inr (Float64 (map (\<lambda>_. None) xs))"
proof (cases "price_col = ''price_zscore''")
  case True
  show ?thesis
    unfolding normalize_and_discretize_def using assms True
    by (simp add: Let_def getitem_setitem zscore_no_spread qcut_all_missing)
next
  case False
  show ?thesis
    unfolding normalize_and_discretize_def using assms False
    by (simp add: Let_def getitem_setitem zscore_no_spread qcut_no_spread)
qed

lemma getitem_frame5: "getitem (objs heap5 0) ''price'' = Inr (Float64 [Some 5, Some 5, Some 5])"
  by (simp add: getitem_def heap5_def frame5_def)

lemma std0_frame5: "series_std 0 [Some 5, Some 5, Some 5] = Some 0"
  by (simp add: series_std_def Let_def)

theorem no_spread_zscore_nan_then_ValueError_witness:
  "\<exists>h'. normalize_and_discretize heap5 0 ''price'' = (h', Inl ValueError) \<and>
           getitem (objs h' 0) ''price_zscore'' =
             Inr (Float64 (map (\<lambda>_. None) [Some 5, Some 5, Some (5::real)]))"
  using no_spread_zscore_nan_then_ValueError [OF getitem_frame5 std0_frame5] .

theorem no_DegenerateDistributionError_counterexample:
  "series_std 0 [Some 5, Some 5, Some 5] = Some 0 \<and>
   getitem (objs heap5 0) ''price'' = Inr (Float64 [Some 5, Some 5, Some 5]) \<and>
   snd (normalize_and_discretize heap5 0 ''price'') \<noteq> Inl DegenerateDistributionError \<and>
   snd (normalize_and_discretize heap5 0 ''price'') = Inl ValueError \<and>
   getitem (objs (fst (normalize_and_discretize heap5 0 ''price'')) 0) ''price_zscore'' =
     Inr (Float64 [None, None, None])"
proof -
  have q: "qcut [Some 5, Some 5, Some 5] 3 [''low'', ''medium'', ''high''] = Inl ValueError"
    by (rule qcut_no_spread [OF std0_frame5])
  have "normalize_and_discretize heap5 0 ''price'' =
          (setitem heap5 0 ''price_zscore'' (Float64 [None, None, None]), Inl ValueError)"
    unfolding normalize_and_discretize_def using getitem_frame5
    by (simp add: Let_def getitem_setitem std0_frame5 fdiv_def fsub_def series_mean_def q)
  then show ?thesis
    by (simp add: std0_frame5 getitem_frame5 getitem_setitem)
qed

section \<open>Which frames a stage changes\<close>

lemma remove_price_outliers_frame:
  "r < fresh h \<Longrightarrow> objs (fst (remove_price_outliers h df price_col)) r = objs h r"
  by (simp add: remove_price_outliers_def alloc_def Let_def split: sum.splits)

lemma remove_price_outliers_new:
  "snd (remove_price_outliers h df price_col) = Inr r \<Longrightarrow>
     r = fresh h \<and> fresh (fst (remove_price_outliers h df price_col)) = Suc (fresh h)"
  by (auto simp: remove_price_outliers_def alloc_def Let_def split: sum.splits)

lemma normalize_other_frames:
  "r \<noteq> df \<Longrightarrow> objs (fst (normalize_and_discretize h df price_col)) r = objs h r"
  by (simp add: normalize_and_discretize_def Let_def setitem_other split: sum.splits)

lemma normalize_index:
  "index (objs (fst (normalize_and_discretize h df price_col)) df) = index (objs h df)"
  by (simp add: normalize_and_discretize_def Let_def index_setitem split: sum.splits)

lemma normalize_fresh:
  "fresh (fst (normalize_and_discretize h df price_col)) = fresh h"
  by (simp add: normalize_and_discretize_def Let_def fresh_setitem split: sum.splits)

lemma qcut_Inr: "qcut xs q labels = Inr c \<Longrightarrow> \<exists>b. c = Category b"
  by (auto simp: qcut_def Let_def split: if_splits)

lemma normalize_success:
  assumes "normalize_and_discretize h df price_col = (h', Inr r)"
  shows "r = df \<and> (\<exists>z b. h' = setitem (setitem h df ''price_zscore'' (Float64 z)) df ''price_bin'' (Category b))"
  using assms
  by (auto simp: normalize_and_discretize_def Let_def split: sum.splits dest!: qcut_Inr)

lemma normalize_same_object:
  assumes "snd (normalize_and_discretize h df price_col) = Inr r"
  shows "r = df \<and>
     (\<exists>z b. getitem (objs (fst (normalize_and_discretize h df price_col)) df) ''price_zscore'' = Inr (Float64 z) \<and>
            getitem (objs (fst (normalize_and_discretize h df price_col)) df) ''price_bin'' = Inr (Category b))"
proof -
  obtain h' where run: "normalize_and_discretize h df price_col = (h', Inr r)"
    using assms by (cases "normalize_and_discretize h df price_col") simp
  from normalize_success [OF run] obtain z b where
    r: "r = df" and h': "h' = setitem (setitem h df ''price_zscore'' (Float64 z)) df ''price_bin'' (Category b)"
    by blast
  have "getitem (objs h' df) ''price_zscore'' = Inr (Float64 z)"
       "getitem (objs h' df) ''price_bin'' = Inr (Category b)"
    by (simp_all add: h' getitem_setitem)
  then show ?thesis
    using r by (simp add: run)
qed

text \<open>
  Claim C9, as amended. The outlier filter returns a new frame and leaves every frame that
  exists (every address below \<open>fresh\<close>), its input included, unchanged. The feature deriver changes the frame passed to
  it: on success it returns that same frame, now with the columns \<open>price_zscore\<close> and
  \<open>price_bin\<close>; the index and every other column of that frame, and every other frame,
  are unchanged, and no frame is created.
\<close>

theorem stages_and_their_input:
  assumes "df < fresh h"
  shows "objs (fst (remove_price_outliers h df price_col)) df = objs h df \<and>
         (\<forall>r. r < fresh h \<longrightarrow> objs (fst (remove_price_outliers h df price_col)) r = objs h r) \<and>
         (\<forall>r. snd (remove_price_outliers h df price_col) = Inr r \<longrightarrow> r \<noteq> df \<and> r = fresh h) \<and>
         (\<forall>r. snd (normalize_and_discretize h df price_col) = Inr r \<longrightarrow>
                r = df \<and>
                (\<exists>z b. getitem (objs (fst (normalize_and_discretize h df price_col)) df) ''price_zscore''
                          = Inr (Float64 z) \<and>
                       getitem (objs (fst (normalize_and_discretize h df price_col)) df) ''price_bin''
                          = Inr (Category b))) \<and>
         index (objs (fst (normalize_and_discretize h df price_col)) df) = index (objs h df) \<and>
         (\<forall>name. name \<noteq> ''price_zscore'' \<and> name \<noteq> ''price_bin'' \<longrightarrow>
                getitem (objs (fst (normalize_and_discretize h df price_col)) df) name =
                getitem (objs h df) name) \<and>
         (\<forall>r. r \<noteq> df \<longrightarrow> objs (fst (normalize_and_discretize h df price_col)) r = objs h r) \<and>
         fresh (fst (normalize_and_discretize h df price_col)) = fresh h"
proof (intro conjI allI impI)
  show "objs (fst (remove_price_outliers h df price_col)) df = objs h df"
    by (rule remove_price_outliers_frame [OF assms])
next
  fix r assume "r < fresh h"
  then show "objs (fst (remove_price_outliers h df price_col)) r = objs h r"
    by (rule remove_price_outliers_frame)
next
  fix r assume "snd (remove_price_outliers h df price_col) = Inr r"
  from remove_price_outliers_new [OF this] have r: "r = fresh h" by simp
  show "r \<noteq> df" using r assms by simp
  show "r = fresh h" by (rule r)
next
  fix r assume "snd (normalize_and_discretize h df price_col) = Inr r"
  from normalize_same_object [OF this]
  show "r = df"
    and "\<exists>z b. getitem (objs (fst (normalize_and_discretize h df price_col)) df) ''price_zscore''
                          = Inr (Float64 z) \<and>
                       getitem (objs (fst (normalize_and_discretize h df price_col)) df) ''price_bin''
                          = Inr (Category b)"
    by simp_all
next
  show "index (objs (fst (normalize_and_discretize h df price_col)) df) = index (objs h df)"
    by (rule normalize_index)
next
  fix name assume "name \<noteq> ''price_zscore'' \<and> name \<noteq> ''price_bin''"
  then show "getitem (objs (fst (normalize_and_discretize h df price_col)) df) name =
                getitem (objs h df) name"
    by (simp add: normalize_other_columns)
next
  fix r assume "r \<noteq> df"
  then show "objs (fst (normalize_and_discretize h df price_col)) r = objs h r"
    by (rule normalize_other_frames)
next
  show "fresh (fst (normalize_and_discretize h df price_col)) = fresh h"
    by (rule normalize_fresh)
qed

lemma quantiles_frame3:
  "quantile [Some 1, None, Some 3] 0 = Some 1"
  "quantile [Some 1, None, Some 3] (1/3) = Some (5/3)"
  "quantile [Some 1, None, Some 3] (2/3) = Some (7/3)"
  "quantile [Some 1, None, Some 3] 1 = Some 3"
  by (simp_all add: quantile_def Let_def)

lemma mean_frame3: "series_mean [Some 1, None, Some 3] = Some 2"
  by (simp add: series_mean_def Let_def)

lemma normalize_frame3:
  "normalize_and_discretize heap3 0 ''price'' =
     (setitem (setitem heap3 0 ''price_zscore'' (Float64 [Some (-1), None, Some 1]))
        0 ''price_bin'' (Category [Some ''low'', None, Some ''high'']), Inr 0)"
proof -
  have q: "qcut [Some 1, None, Some 3] 3 [''low'', ''medium'', ''high''] =
            Inr (Category [Some ''low'', None, Some ''high''])"
    unfolding qcut_def Let_def tertile_edges
    by (simp add: quantiles_frame3 bin_label_def searchsorted_left_def)
  show ?thesis
    unfolding normalize_and_discretize_def using getitem_frame3
    by (simp add: Let_def getitem_setitem std0_frame3 mean_frame3 fdiv_def fsub_def q)
qed


lemma normalize_on_frame3:
  assumes "objs h 0 = frame3"
  shows "snd (normalize_and_discretize h 0 ''price'') = Inr 0"
proof -
  have g: "getitem (objs h 0) ''price'' = Inr (Float64 [Some 1, None, Some 3])"
    using assms by (simp add: getitem_def frame3_def)
  have q: "qcut [Some 1, None, Some 3] 3 [''low'', ''medium'', ''high''] =
            Inr (Category [Some ''low'', None, Some ''high''])"
    unfolding qcut_def Let_def tertile_edges
    by (simp add: quantiles_frame3 bin_label_def searchsorted_left_def)
  show ?thesis
    unfolding normalize_and_discretize_def using g
    by (simp add: Let_def getitem_setitem q)
qed

theorem stages_and_their_input_witness:
  "objs (fst (remove_price_outliers heap9 0 ''price'')) 0 = frame3 \<and>
   objs (fst (remove_price_outliers heap9 0 ''price'')) 1 = frame8 \<and>
   snd (remove_price_outliers heap9 0 ''price'') = Inr 2 \<and>
   snd (normalize_and_discretize heap9 0 ''price'') = Inr 0 \<and>
   index (objs (fst (normalize_and_discretize heap9 0 ''price'')) 0) = [0, 1, 2] \<and>
   objs (fst (normalize_and_discretize heap9 0 ''price'')) 1 = frame8 \<and>
   fresh (fst (normalize_and_discretize heap9 0 ''price'')) = 2"
proof -
  have pos: "(0::nat) < fresh heap9"
    by (simp add: heap9_def)
  have o: "objs heap9 0 = frame3" "objs heap9 1 = frame8" "fresh heap9 = 2"
    by (simp_all add: heap9_def)
  have i: "index frame3 = [0, 1, 2]"
    by (simp add: frame3_def)
  note t = stages_and_their_input [OF pos, of "''price''"]
  have c1: "objs (fst (remove_price_outliers heap9 0 ''price'')) 0 = frame3"
    using t o(1) by (elim conjE) (simp only:)
  have c1': "objs (fst (remove_price_outliers heap9 0 ''price'')) 1 = frame8"
  proof -
    from t have "\<forall>r. r < fresh heap9 \<longrightarrow> objs (fst (remove_price_outliers heap9 0 ''price'')) r = objs heap9 r"
      by (elim conjE)
    then have "objs (fst (remove_price_outliers heap9 0 ''price'')) 1 = objs heap9 1"
      by (simp add: o(3))
    then show ?thesis by (simp only: o(2))
  qed
  have c4: "index (objs (fst (normalize_and_discretize heap9 0 ''price'')) 0) = [0, 1, 2]"
    using t o(1) i by (elim conjE) (simp only:)
  have c5: "objs (fst (normalize_and_discretize heap9 0 ''price'')) 1 = frame8"
  proof -
    from t have "\<forall>r. r \<noteq> 0 \<longrightarrow> objs (fst (normalize_and_discretize heap9 0 ''price'')) r = objs heap9 r"
      by (elim conjE)
    then have "objs (fst (normalize_and_discretize heap9 0 ''price'')) 1 = objs heap9 1"
      by simp
    then show ?thesis by (simp only: o(2))
  qed
  have c6: "fresh (fst (normalize_and_discretize heap9 0 ''price'')) = 2"
    using t o(3) by (elim conjE) (simp only:)
  have g: "getitem (objs heap9 0) ''price'' = Inr (Float64 [Some 1, None, Some 3])"
    by (simp add: o(1) getitem_def frame3_def)
  have c2: "snd (remove_price_outliers heap9 0 ''price'') = Inr 2"
    using g by (simp add: remove_price_outliers_def alloc_def Let_def o(3))
  have c3: "snd (normalize_and_discretize heap9 0 ''price'') = Inr 0"
    using o(1) by (rule normalize_on_frame3)
  from c1 c1' c2 c3 c4 c5 c6 show ?thesis
    by (intro conjI)
qed

theorem feature_deriver_changes_input_counterexample:
  "snd (normalize_and_discretize heap3 0 ''price'') = Inr 0 \<and>
   getitem (objs heap3 0) ''price_zscore'' = Inl KeyError \<and>
   getitem (objs (fst (normalize_and_discretize heap3 0 ''price'')) 0) ''price_zscore'' =
     Inr (Float64 [Some (-1), None, Some 1]) \<and>
   getitem (objs (fst (normalize_and_discretize heap3 0 ''price'')) 0) ''price_bin'' =
     Inr (Category [Some ''low'', None, Some ''high'']) \<and>
   objs (fst (normalize_and_discretize heap3 0 ''price'')) 0 \<noteq> objs heap3 0"
proof -
  have a: "getitem (objs heap3 0) ''price_zscore'' = Inl KeyError"
    by (simp add: getitem_def heap3_def frame3_def)
  have b: "getitem (objs (fst (normalize_and_discretize heap3 0 ''price'')) 0) ''price_zscore'' =
     Inr (Float64 [Some (-1), None, Some 1])"
    by (simp add: normalize_frame3 getitem_setitem)
  have c: "getitem (objs (fst (normalize_and_discretize heap3 0 ''price'')) 0) ''price_bin'' =
     Inr (Category [Some ''low'', None, Some ''high''])"
    by (simp add: normalize_frame3 getitem_setitem)
  have d: "objs (fst (normalize_and_discretize heap3 0 ''price'')) 0 \<noteq> objs heap3 0"
  proof
    assume "objs (fst (normalize_and_discretize heap3 0 ''price'')) 0 = objs heap3 0"
    then have "getitem (objs (fst (normalize_and_discretize heap3 0 ''price'')) 0) ''price_zscore''
                 = getitem (objs heap3 0) ''price_zscore''"
      by (rule arg_cong)
    then show False
      by (simp only: a b sum.distinct)
  qed
  have e: "snd (normalize_and_discretize heap3 0 ''price'') = Inr 0"
    by (simp add: normalize_frame3)
  from e a b c d show ?thesis
    by (intro conjI)
qed

section \<open>The feature deriver: tertile bins\<close>

lemma quantile_interp:
  "dropna_vals xs \<noteq> [] \<Longrightarrow>
     quantile xs q = Some (interp (sort (dropna_vals xs)) (real (length (dropna_vals xs) - 1) * q))"
  by (simp add: quantile_def interp_def Let_def)

lemma nat_floor_bounds:
  assumes "0 \<le> (p::real)"
  shows "real (nat \<lfloor>p\<rfloor>) \<le> p" and "p < real (nat \<lfloor>p\<rfloor>) + 1"
proof -
  have "0 \<le> \<lfloor>p\<rfloor>" using assms by simp
  then have eq: "real (nat \<lfloor>p\<rfloor>) = of_int \<lfloor>p\<rfloor>" by simp
  show "real (nat \<lfloor>p\<rfloor>) \<le> p" unfolding eq by (rule of_int_floor_le)
  show "p < real (nat \<lfloor>p\<rfloor>) + 1" unfolding eq by (rule real_of_int_floor_add_one_gt)
qed

lemma nat_floor_le:
  assumes "0 \<le> (p::real)" "p \<le> real k"
  shows "nat \<lfloor>p\<rfloor> \<le> k"
proof -
  have "\<lfloor>p\<rfloor> \<le> \<lfloor>real k\<rfloor>" using assms(2) by (rule floor_mono)
  then show ?thesis by simp
qed

lemma min_last_less: "s \<noteq> [] \<Longrightarrow> min k (length s - 1) < length s"
proof -
  assume "s \<noteq> []"
  then have "length s - 1 < length s" by simp
  then show ?thesis by (rule min.strict_coboundedI2)
qed

lemma interp_bounds:
  assumes srt: "sorted s" and ne: "s \<noteq> []" and p0: "0 \<le> p" and pn: "p \<le> real (length s - 1)"
  shows "s ! nat \<lfloor>p\<rfloor> \<le> interp s p"
    and "interp s p \<le> s ! min (nat \<lfloor>p\<rfloor> + 1) (length s - 1)"
proof -
  let ?i = "nat \<lfloor>p\<rfloor>"
  let ?j = "min (?i + 1) (length s - 1)"
  have i: "?i \<le> length s - 1" using p0 pn by (rule nat_floor_le)
  have n: "0 < length s" using ne by simp
  have j: "?j < length s" using ne by (rule min_last_less)
  have ij: "?i \<le> ?j" using i by simp
  have lohi: "s ! ?i \<le> s ! ?j" using srt ij j by (rule sorted_nth_mono)
  have g0: "0 \<le> p - real ?i" using nat_floor_bounds(1) [OF p0] by simp
  have g1: "p - real ?i \<le> 1" using nat_floor_bounds(2) [OF p0] by simp
  have "0 \<le> (s ! ?j - s ! ?i) * (p - real ?i)"
    using lohi g0 by simp
  then show "s ! ?i \<le> interp s p" by (simp add: interp_def)
  have "(s ! ?j - s ! ?i) * (p - real ?i) \<le> (s ! ?j - s ! ?i) * 1"
    using lohi g1 by (intro mult_left_mono) simp_all
  then show "interp s p \<le> s ! ?j" by (simp add: interp_def)
qed

lemma interp_mono:
  assumes srt: "sorted s" and ne: "s \<noteq> []"
    and p0: "0 \<le> p" and pp: "p \<le> p'" and pn: "p' \<le> real (length s - 1)"
  shows "interp s p \<le> interp s p'"
proof -
  let ?i = "nat \<lfloor>p\<rfloor>" and ?i' = "nat \<lfloor>p'\<rfloor>"
  have p0': "0 \<le> p'" using p0 pp by simp
  have pn': "p \<le> real (length s - 1)" using pp pn by simp
  have ii: "?i \<le> ?i'" using pp by (simp add: floor_mono nat_mono)
  have i'n: "?i' \<le> length s - 1" using p0' pn by (rule nat_floor_le)
  have n: "0 < length s" using ne by simp
  show ?thesis
  proof (cases "?i = ?i'")
    case True
    let ?j = "min (?i + 1) (length s - 1)"
    have "?i \<le> ?j" using i'n True by simp
    moreover have "?j < length s" using ne by (rule min_last_less)
    ultimately have "s ! ?i \<le> s ! ?j" using srt by (intro sorted_nth_mono)
    then have "(s ! ?j - s ! ?i) * (p - real ?i) \<le> (s ! ?j - s ! ?i) * (p' - real ?i)"
      using pp by (intro mult_left_mono) simp_all
    then show ?thesis
      unfolding interp_def True [symmetric] by simp
  next
    case False
    then have lt: "?i + 1 \<le> ?i'" using ii by simp
    have "interp s p \<le> s ! min (?i + 1) (length s - 1)"
      using srt ne p0 pn' by (rule interp_bounds(2))
    also have "\<dots> \<le> s ! ?i'"
    proof (rule sorted_nth_mono [OF srt])
      show "min (?i + 1) (length s - 1) \<le> ?i'" using lt by simp
      show "?i' < length s" using i'n n by linarith
    qed
    also have "\<dots> \<le> interp s p'"
      using srt ne p0' pn by (rule interp_bounds(1))
    finally show ?thesis .
  qed
qed

lemma quantile_mono:
  assumes ne: "dropna_vals xs \<noteq> []" and q: "0 \<le> q" "q \<le> q'" "q' \<le> 1"
  shows "\<exists>a b. quantile xs q = Some a \<and> quantile xs q' = Some b \<and> a \<le> b"
proof -
  let ?s = "sort (dropna_vals xs)"
  let ?n = "length (dropna_vals xs)"
  have s: "sorted ?s" "?s \<noteq> []" "length ?s = ?n"
    using ne by simp_all
  have a: "0 \<le> real (?n - 1) * q" using q by simp
  have b: "real (?n - 1) * q \<le> real (?n - 1) * q'"
    using q by (intro mult_left_mono) simp_all
  have "real (?n - 1) * q' \<le> real (?n - 1) * 1"
    using q by (intro mult_left_mono) simp_all
  then have c: "real (?n - 1) * q' \<le> real (length ?s - 1)"
    by simp
  have "interp ?s (real (?n - 1) * q) \<le> interp ?s (real (?n - 1) * q')"
    using s(1,2) a b c by (rule interp_mono)
  then show ?thesis
    by (simp add: quantile_interp [OF ne])
qed

lemma quantile_0:
  assumes "dropna_vals xs \<noteq> []"
  shows "quantile xs 0 = Some (sort (dropna_vals xs) ! 0)"
  by (simp add: quantile_interp [OF assms] interp_def)

lemma quantile_1:
  assumes "dropna_vals xs \<noteq> []"
  shows "quantile xs 1 = Some (sort (dropna_vals xs) ! (length (dropna_vals xs) - 1))"
  by (simp add: quantile_interp [OF assms] interp_def)

lemma sorted_first_last:
  assumes "sorted (s::real list)" "v \<in> set s"
  shows "s ! 0 \<le> v" and "v \<le> s ! (length s - 1)"
proof -
  from assms(2) obtain k where k: "k < length s" "s ! k = v"
    by (auto simp: in_set_conv_nth)
  have "s ! 0 \<le> s ! k" using assms(1) _ k(1) by (rule sorted_nth_mono) simp
  then show "s ! 0 \<le> v" by (simp add: k)
  have "s ! k \<le> s ! (length s - 1)"
    using assms(1) by (rule sorted_nth_mono) (use k in simp_all)
  then show "v \<le> s ! (length s - 1)" by (simp add: k)
qed


lemma normalize_qcut:
  assumes "getitem (objs h df) price_col = Inr (Float64 xs)" and "price_col \<noteq> ''price_zscore''"
  shows "snd (normalize_and_discretize h df price_col) =
           (case qcut xs 3 [''low'', ''medium'', ''high''] of Inl e \<Rightarrow> Inl e | Inr bins \<Rightarrow> Inr df)"
    and "getitem (objs (fst (normalize_and_discretize h df price_col)) df) ''price_bin'' =
           (case qcut xs 3 [''low'', ''medium'', ''high''] of
              Inl e \<Rightarrow> getitem (objs h df) ''price_bin'' | Inr bins \<Rightarrow> Inr bins)"
  unfolding normalize_and_discretize_def using assms
  by (simp_all add: Let_def getitem_setitem split: sum.splits)

lemma edges3_ordered:
  assumes ne: "dropna_vals xs \<noteq> []"
  shows "\<exists>e0 e1 e2 e3. edges3 xs = [Some e0, Some e1, Some e2, Some e3] \<and>
           e0 \<le> e1 \<and> e1 \<le> e2 \<and> e2 \<le> e3 \<and>
           e0 \<in> set (dropna_vals xs) \<and> e3 \<in> set (dropna_vals xs) \<and>
           (\<forall>v \<in> set (dropna_vals xs). e0 \<le> v \<and> v \<le> e3)"
proof -
  let ?s = "sort (dropna_vals xs)"
  let ?n = "length (dropna_vals xs)"
  have s: "sorted ?s" "set ?s = set (dropna_vals xs)" "length ?s = ?n" "0 < ?n"
    using ne by simp_all
  from quantile_mono [OF ne, of 0 "1/3"] obtain a0 a1 where
    a: "quantile xs 0 = Some a0" "quantile xs (1/3) = Some a1" "a0 \<le> a1" by auto
  from quantile_mono [OF ne, of "1/3" "2/3"] obtain b1 b2 where
    b: "quantile xs (1/3) = Some b1" "quantile xs (2/3) = Some b2" "b1 \<le> b2" by auto
  from quantile_mono [OF ne, of "2/3" 1] obtain c2 c3 where
    c: "quantile xs (2/3) = Some c2" "quantile xs 1 = Some c3" "c2 \<le> c3" by auto
  have e0: "a0 = ?s ! 0" using quantile_0 [OF ne] a(1) by simp
  have e3: "c3 = ?s ! (length ?s - 1)" using quantile_1 [OF ne] c(2) by simp
  have m0: "a0 \<in> set (dropna_vals xs)"
    unfolding e0 s(2) [symmetric] using s(3,4) by (intro nth_mem) simp
  have m3: "c3 \<in> set (dropna_vals xs)"
    unfolding e3 s(2) [symmetric] using s(3,4) by (intro nth_mem) simp
  have bd: "\<forall>v \<in> set (dropna_vals xs). a0 \<le> v \<and> v \<le> c3"
    unfolding e0 e3 using sorted_first_last [OF s(1)] s(2) by blast
  have "edges3 xs = [Some a0, Some a1, Some b2, Some c3]"
    using a b c by (simp add: edges3_def)
  moreover have "a1 \<le> b2" using a(2) b(1,3) by simp
  moreover have "b2 \<le> c3" using b(2) c(1,3) by simp
  ultimately show ?thesis
    using a(3) m0 m3 bd by blast
qed

lemma bin_label_tertile:
  assumes "e0 < e1" "e1 < e2" "e2 < e3" "e0 \<le> v" "v \<le> e3"
  shows "bin_label [e0, e1, e2, e3] [''low'', ''medium'', ''high''] (Some v) =
         tertile_label e1 e2 (Some v)"
  using assms by (auto simp: bin_label_def searchsorted_left_def tertile_label_def)

lemma qcut_edges3:
  "qcut xs 3 labels =
     (if \<not> distinct (edges3 xs) then Inl ValueError
      else if length labels \<noteq> 3 then Inl ValueError
      else Inr (Category (map (bin_label (dropna_vals (edges3 xs)) labels) xs)))"
  unfolding qcut_def Let_def tertile_edges edges3_def by simp


lemma qcut_distinct_edges:
  assumes d: "distinct (edges3 xs)"
  shows "\<exists>e1 e2. quantile xs (1/3) = Some e1 \<and> quantile xs (2/3) = Some e2 \<and> e1 < e2 \<and>
           qcut xs 3 [''low'', ''medium'', ''high''] = Inr (Category (map (tertile_label e1 e2) xs)) \<and>
           Some ''low'' \<in> set (map (tertile_label e1 e2) xs) \<and>
           Some ''high'' \<in> set (map (tertile_label e1 e2) xs)"
proof -
  have ne: "dropna_vals xs \<noteq> []"
  proof
    assume "dropna_vals xs = []"
    then have "edges3 xs = [None, None, None, None]"
      by (simp add: edges3_def quantile_None)
    with d show False by simp
  qed
  from edges3_ordered [OF ne] obtain e0 e1 e2 e3 where
    e: "edges3 xs = [Some e0, Some e1, Some e2, Some e3]"
    and le: "e0 \<le> e1" "e1 \<le> e2" "e2 \<le> e3"
    and m: "e0 \<in> set (dropna_vals xs)" "e3 \<in> set (dropna_vals xs)"
    and bd: "\<forall>v \<in> set (dropna_vals xs). e0 \<le> v \<and> v \<le> e3"
    by blast
  from d e le have lt: "e0 < e1" "e1 < e2" "e2 < e3"
    by auto
  have q: "quantile xs (1/3) = Some e1" "quantile xs (2/3) = Some e2"
    using e by (simp_all add: edges3_def)
  have lab: "bin_label [e0, e1, e2, e3] [''low'', ''medium'', ''high''] c = tertile_label e1 e2 c"
    if "c \<in> set xs" for c
  proof (cases c)
    case None
    then show ?thesis by (simp add: bin_label_def tertile_label_def)
  next
    case (Some v)
    then have "v \<in> set (dropna_vals xs)"
      using that by (simp add: dropna_vals_member)
    then have "e0 \<le> v" "v \<le> e3" using bd by simp_all
    with lt show ?thesis unfolding Some by (rule bin_label_tertile)
  qed
  have "qcut xs 3 [''low'', ''medium'', ''high''] =
          Inr (Category (map (bin_label [e0, e1, e2, e3] [''low'', ''medium'', ''high'']) xs))"
    using d by (simp add: qcut_edges3) (simp add: e)
  also have "map (bin_label [e0, e1, e2, e3] [''low'', ''medium'', ''high'']) xs =
             map (tertile_label e1 e2) xs"
    using lab by simp
  finally have qc: "qcut xs 3 [''low'', ''medium'', ''high''] =
                      Inr (Category (map (tertile_label e1 e2) xs))" .
  have "Some e0 \<in> set xs" "Some e3 \<in> set xs"
    using m by (simp_all add: dropna_vals_member)
  moreover have "tertile_label e1 e2 (Some e0) = Some ''low''"
    using le(1) by (simp add: tertile_label_def)
  moreover have "tertile_label e1 e2 (Some e3) = Some ''high''"
    using lt by (simp add: tertile_label_def)
  ultimately have "Some ''low'' \<in> set (map (tertile_label e1 e2) xs)"
    and "Some ''high'' \<in> set (map (tertile_label e1 e2) xs)"
    by (metis image_eqI set_map)+
  then show ?thesis
    using q lt(2) qc by blast
qed

text \<open>
  Claim C7, as amended. The tertile binning labels a price \<open>low\<close> up to the 1/3
  quantile, \<open>medium\<close> above it up to the 2/3 quantile and \<open>high\<close> above that, provided
  the four bin edges (minimum, the two quantiles, maximum) are pairwise different; then
  \<open>low\<close> and \<open>high\<close> are never empty (\<open>medium\<close> can be), and a missing price has no
  label. When two edges coincide the derivation fails with \<open>ValueError\<close> and assigns no
  \<open>price_bin\<close>.
\<close>

theorem price_bin_by_tertile_edges:
  assumes col: "getitem (objs h df) price_col = Inr (Float64 xs)"
    and name: "price_col \<noteq> ''price_zscore''"
  shows "(distinct (edges3 xs) \<longrightarrow>
            (\<exists>e1 e2. quantile xs (1/3) = Some e1 \<and> quantile xs (2/3) = Some e2 \<and> e1 < e2 \<and>
               snd (normalize_and_discretize h df price_col) = Inr df \<and>
               getitem (objs (fst (normalize_and_discretize h df price_col)) df) ''price_bin'' =
                 Inr (Category (map (tertile_label e1 e2) xs)) \<and>
               Some ''low'' \<in> set (map (tertile_label e1 e2) xs) \<and>
               Some ''high'' \<in> set (map (tertile_label e1 e2) xs))) \<and>
         (\<not> distinct (edges3 xs) \<longrightarrow>
            snd (normalize_and_discretize h df price_col) = Inl ValueError \<and>
            getitem (objs (fst (normalize_and_discretize h df price_col)) df) ''price_bin'' =
              getitem (objs h df) ''price_bin'')"
proof (intro conjI impI)
  assume d: "distinct (edges3 xs)"
  from qcut_distinct_edges [OF d] obtain e1 e2 where
    q: "quantile xs (1/3) = Some e1" "quantile xs (2/3) = Some e2" "e1 < e2"
    and qc: "qcut xs 3 [''low'', ''medium'', ''high''] = Inr (Category (map (tertile_label e1 e2) xs))"
    and lh: "Some ''low'' \<in> set (map (tertile_label e1 e2) xs)"
            "Some ''high'' \<in> set (map (tertile_label e1 e2) xs)"
    by blast
  have "snd (normalize_and_discretize h df price_col) = Inr df"
    using normalize_qcut(1) [OF col name] by (simp add: qc)
  moreover have "getitem (objs (fst (normalize_and_discretize h df price_col)) df) ''price_bin'' =
                 Inr (Category (map (tertile_label e1 e2) xs))"
    using normalize_qcut(2) [OF col name] by (simp add: qc)
  ultimately show "\<exists>e1 e2. quantile xs (1/3) = Some e1 \<and> quantile xs (2/3) = Some e2 \<and> e1 < e2 \<and>
               snd (normalize_and_discretize h df price_col) = Inr df \<and>
               getitem (objs (fst (normalize_and_discretize h df price_col)) df) ''price_bin'' =
                 Inr (Category (map (tertile_label e1 e2) xs)) \<and>
               Some ''low'' \<in> set (map (tertile_label e1 e2) xs) \<and>
               Some ''high'' \<in> set (map (tertile_label e1 e2) xs)"
    using q lh by blast
next
  assume nd: "\<not> distinct (edges3 xs)"
  then have qc: "qcut xs 3 [''low'', ''medium'', ''high''] = Inl ValueError"
    by (simp add: qcut_edges3)
  show "snd (normalize_and_discretize h df price_col) = Inl ValueError"
    using normalize_qcut(1) [OF col name] by (simp add: qc)
  show "getitem (objs (fst (normalize_and_discretize h df price_col)) df) ''price_bin'' =
              getitem (objs h df) ''price_bin''"
    using normalize_qcut(2) [OF col name] by (simp add: qc)
qed

lemma edges3_frame3: "edges3 [Some 1, None, Some 3] = [Some 1, Some (5/3), Some (7/3), Some 3]"
  by (simp add: edges3_def quantiles_frame3)

theorem price_bin_by_tertile_edges_witness:
  "\<exists>e1 e2. quantile [Some 1, None, Some 3] (1/3) = Some e1 \<and>
           quantile [Some 1, None, Some 3] (2/3) = Some e2 \<and> e1 < e2 \<and>
           snd (normalize_and_discretize heap3 0 ''price'') = Inr 0 \<and>
           getitem (objs (fst (normalize_and_discretize heap3 0 ''price'')) 0) ''price_bin'' =
             Inr (Category (map (tertile_label e1 e2) [Some 1, None, Some 3])) \<and>
           Some ''low'' \<in> set (map (tertile_label e1 e2) [Some 1, None, Some 3]) \<and>
           Some ''high'' \<in> set (map (tertile_label e1 e2) [Some 1, None, Some 3])"
proof -
  have d: "distinct (edges3 [Some 1, None, Some 3])"
    by (simp add: edges3_frame3)
  have n: "''price'' \<noteq> ''price_zscore''"
    by simp
  from price_bin_by_tertile_edges [OF getitem_frame3 n, THEN conjunct1, THEN mp, OF d]
  show ?thesis .
qed

lemma quantiles_prices7:
  "quantile prices7 0 = Some 0" "quantile prices7 (1/3) = Some 1"
  "quantile prices7 (2/3) = Some 3" "quantile prices7 1 = Some 5"
  "quantile prices7 (1/4) = Some 1" "quantile prices7 (3/4) = Some 4"
  by (simp_all add: quantile_def Let_def prices7_def)

lemma getitem_frame7: "getitem (objs heap7 0) ''price'' = Inr (Float64 prices7)"
  by (simp add: getitem_def heap7_def frame7_def)

theorem price_bin_medium_empty_counterexample:
  "card (set (dropna_vals prices7)) = 4 \<and>
   (\<exists>h'. remove_price_outliers heap7 0 ''price'' = (h', Inr 1) \<and> objs h' 1 = frame7) \<and>
   snd (normalize_and_discretize heap7 0 ''price'') = Inr 0 \<and>
   getitem (objs (fst (normalize_and_discretize heap7 0 ''price'')) 0) ''price_bin'' =
     Inr (Category [Some ''low'', Some ''low'', Some ''low'', Some ''high'', Some ''high'']) \<and>
   Some ''medium'' \<notin> set [Some ''low'', Some ''low'', Some ''low'', Some ''high'', Some ''high'']"
proof -
  have c: "card (set (dropna_vals prices7)) = 4"
    by (simp add: prices7_def)
  have b: "lower_bound prices7 = Some (-7/2)" "upper_bound prices7 = Some (17/2)"
    by (simp_all add: lower_bound_def upper_bound_def quantiles_prices7 fsub_def fadd_def fmul_def Let_def)
  have keep: "map (\<lambda>v. fge v (lower_bound prices7) \<and> fle v (upper_bound prices7)) prices7
      = [True, True, True, True, True]"
    unfolding b by (simp add: prices7_def fge_def fle_def)
  have l: "loc frame7 [True, True, True, True, True] = frame7"
    by (simp add: loc_def frame7_def prices7_def)
  have r: "remove_price_outliers heap7 0 ''price'' =
      (heap7\<lparr>objs := (objs heap7)(1 := frame7), fresh := 2\<rparr>, Inr 1)"
    using getitem_frame7
    by (simp add: remove_price_outliers_def alloc_def Let_def keep) (simp add: heap7_def l)
  have q: "qcut prices7 3 [''low'', ''medium'', ''high''] =
      Inr (Category [Some ''low'', Some ''low'', Some ''low'', Some ''high'', Some ''high''])"
    unfolding qcut_def Let_def tertile_edges quantiles_prices7
    by (simp add: bin_label_def searchsorted_left_def prices7_def)
  have n: "''price'' \<noteq> ''price_zscore''"
    by simp
  have s: "snd (normalize_and_discretize heap7 0 ''price'') = Inr 0"
    using normalize_qcut(1) [OF getitem_frame7 n] by (simp add: q)
  have g: "getitem (objs (fst (normalize_and_discretize heap7 0 ''price'')) 0) ''price_bin'' =
     Inr (Category [Some ''low'', Some ''low'', Some ''low'', Some ''high'', Some ''high''])"
    using normalize_qcut(2) [OF getitem_frame7 n] by (simp add: q)
  have m: "Some ''medium'' \<notin> set [Some ''low'', Some ''low'', Some ''low'', Some ''high'', Some ''high'']"
    by simp
  have e: "\<exists>h'. remove_price_outliers heap7 0 ''price'' = (h', Inr 1) \<and> objs h' 1 = frame7"
    by (simp add: r)
  from c e s g m show ?thesis
    by (intro conjI)
qed

section \<open>The one-way ANOVA\<close>

lemma sum_list_shift: "(\<Sum>x\<leftarrow>g. x - a) = sum_list g - real (length g) * (a::real)"
  by (induction g) (simp_all add: algebra_simps)

lemma sum_list_sq_shift:
  "(\<Sum>x\<leftarrow>g. (x - c)\<^sup>2) =
     (\<Sum>x\<leftarrow>g. (x - a)\<^sup>2) + 2 * (a - c) * (\<Sum>x\<leftarrow>g. x - a) + real (length g) * (a - (c::real))\<^sup>2"
  by (induction g) (simp_all add: algebra_simps power2_eq_square)

lemma sum_list_dev_avg: "g \<noteq> [] \<Longrightarrow> (\<Sum>x\<leftarrow>g. x - avg g) = 0"
  by (simp add: sum_list_shift avg_def)

lemma group_decomposition:
  assumes "g \<noteq> []"
  shows "(\<Sum>x\<leftarrow>g. (x - c)\<^sup>2) = (\<Sum>x\<leftarrow>g. (x - avg g)\<^sup>2) + real (length g) * (avg g - c)\<^sup>2"
  using sum_list_sq_shift [of c g "avg g"] sum_list_dev_avg [OF assms] by simp

lemma group_square_of_sum:
  assumes "g \<noteq> []"
  shows "(\<Sum>x\<leftarrow>g. x - c)\<^sup>2 / real (length g) = real (length g) * (avg g - c)\<^sup>2"
proof -
  have n: "real (length g) \<noteq> 0" using assms by simp
  have "(\<Sum>x\<leftarrow>g. x - c) = real (length g) * (avg g - c)"
    using n by (simp add: sum_list_shift avg_def algebra_simps)
  then show ?thesis
    using n by (simp add: power2_eq_square)
qed

lemma sum_list_concat_map:
  "sum_list (map f (concat gs)) = (\<Sum>g\<leftarrow>gs. sum_list (map f g))"
  by (induction gs) simp_all

lemma between_code:
  assumes "\<forall>g \<in> set gs. g \<noteq> []"
  shows "(\<Sum>g\<leftarrow>gs. (\<Sum>x\<leftarrow>g. x - c)\<^sup>2 / real (length g)) = (\<Sum>g\<leftarrow>gs. real (length g) * (avg g - c)\<^sup>2)"
  using assms by (induction gs) (simp_all add: group_square_of_sum)

lemma total_decomposition:
  assumes "\<forall>g \<in> set gs. g \<noteq> []"
  shows "(\<Sum>x\<leftarrow>concat gs. (x - c)\<^sup>2) =
           (\<Sum>g\<leftarrow>gs. \<Sum>x\<leftarrow>g. (x - avg g)\<^sup>2) + (\<Sum>g\<leftarrow>gs. real (length g) * (avg g - c)\<^sup>2)"
  using assms
proof (induction gs)
  case Nil
  show ?case by simp
next
  case (Cons g gs)
  then have g: "g \<noteq> []"
    and IH: "(\<Sum>x\<leftarrow>concat gs. (x - c)\<^sup>2) =
           (\<Sum>g\<leftarrow>gs. \<Sum>x\<leftarrow>g. (x - avg g)\<^sup>2) + (\<Sum>g\<leftarrow>gs. real (length g) * (avg g - c)\<^sup>2)"
    by simp_all
  have "(\<Sum>x\<leftarrow>concat (g # gs). (x - c)\<^sup>2) =
          (\<Sum>x\<leftarrow>g. (x - c)\<^sup>2) + (\<Sum>x\<leftarrow>concat gs. (x - c)\<^sup>2)"
    by simp
  also have "\<dots> = ((\<Sum>x\<leftarrow>g. (x - avg g)\<^sup>2) + real (length g) * (avg g - c)\<^sup>2) +
          ((\<Sum>g\<leftarrow>gs. \<Sum>x\<leftarrow>g. (x - avg g)\<^sup>2) + (\<Sum>g\<leftarrow>gs. real (length g) * (avg g - c)\<^sup>2))"
    by (simp only: group_decomposition [OF g, of c] IH)
  finally show ?case
    by simp
qed

lemma ss_within_pos:
  assumes "g \<in> set gs" "x \<in> set g" "y \<in> set g" "x \<noteq> y"
  shows "0 < ss_within gs"
proof -
  have nn: "0 \<le> (\<Sum>x\<leftarrow>g'. (x - avg g')\<^sup>2)" for g' :: "real list"
    by (rule sum_list_nonneg) auto
  have "x \<noteq> avg g \<or> y \<noteq> avg g" using assms(4) by auto
  then obtain z where z: "z \<in> set g" "z \<noteq> avg g" using assms(2,3) by blast
  have "(\<Sum>x\<leftarrow>g. (x - avg g)\<^sup>2) \<noteq> 0"
  proof
    assume "(\<Sum>x\<leftarrow>g. (x - avg g)\<^sup>2) = 0"
    then have "\<forall>t \<in> set (map (\<lambda>x. (x - avg g)\<^sup>2) g). t = 0"
      by (subst (asm) sum_list_nonneg_eq_0_iff) auto
    then have "(z - avg g)\<^sup>2 = 0" using z(1) by auto
    then show False using z(2) by simp
  qed
  then have pos: "0 < (\<Sum>x\<leftarrow>g. (x - avg g)\<^sup>2)"
    using nn [of g] by simp
  have "ss_within gs \<noteq> 0"
  proof
    assume "ss_within gs = 0"
    then have "\<forall>t \<in> set (map (\<lambda>g. \<Sum>x\<leftarrow>g. (x - avg g)\<^sup>2) gs). t = 0"
      unfolding ss_within_def by (subst (asm) sum_list_nonneg_eq_0_iff) (auto simp: nn)
    then have "(\<Sum>x\<leftarrow>g. (x - avg g)\<^sup>2) = 0" using assms(1) by auto
    then show False using pos by simp
  qed
  moreover have "0 \<le> ss_within gs"
    unfolding ss_within_def by (rule sum_list_nonneg) (auto simp: nn)
  ultimately show ?thesis by simp
qed


lemma length_concat_ge:
  assumes "\<forall>g \<in> set gs. g \<noteq> []"
  shows "length gs \<le> length (concat gs)"
  using assms
proof (induction gs)
  case Nil
  show ?case by simp
next
  case (Cons g gs)
  then have "g \<noteq> []" "length gs \<le> length (concat gs)" by simp_all
  then show ?case by (cases g) simp_all
qed

lemma length_concat_gt:
  assumes "\<forall>g \<in> set gs. g \<noteq> []" and "g \<in> set gs" and "2 \<le> length g"
  shows "length gs < length (concat gs)"
proof -
  from assms(2) obtain as bs where gs: "gs = as @ g # bs"
    by (auto simp: in_set_conv_decomp)
  have "length as \<le> length (concat as)" "length bs \<le> length (concat bs)"
    using assms(1) by (auto simp: gs intro!: length_concat_ge)
  then show ?thesis
    using assms(3) by (simp add: gs)
qed

lemma two_elements_length:
  assumes "x \<in> set g" "y \<in> set g" "x \<noteq> y"
  shows "2 \<le> length g"
proof -
  have "card {x, y} \<le> card (set g)"
    using assms by (intro card_mono) auto
  also have "\<dots> \<le> length g" by (rule card_length)
  finally show ?thesis using assms(3) by simp
qed

lemma not_all_equal:
  assumes "x \<in> set g" "y \<in> set g" "x \<noteq> y"
  shows "\<not> list_all (\<lambda>t. t = c) g"
proof -
  have "x \<noteq> c \<or> y \<noteq> c" using assms(3) by auto
  then have "\<exists>t \<in> set g. t \<noteq> c" using assms(1,2) by blast
  then show ?thesis by (simp add: list_all_iff)
qed

lemma dropna_vals_no_None:
  assumes "None \<notin> set a"
  shows "map Some (dropna_vals a) = a"
  using assms
proof (induction a)
  case Nil
  show ?case by simp
next
  case (Cons c a)
  then obtain v where c: "c = Some v" by (cases c) auto
  from Cons have "map Some (dropna_vals a) = a" by simp
  then show ?case by (simp add: c)
qed


lemma f_oneway_arrays_F:
  assumes ne: "\<forall>a \<in> set arrs. a \<noteq> []"
    and nn: "\<forall>a \<in> set arrs. None \<notin> set a"
    and var: "a0 \<in> set arrs" "Some x \<in> set a0" "Some y \<in> set a0" "x \<noteq> y"
    and gs: "gs = map dropna_vals arrs"
  shows "f_oneway_arrays fdtrc arrs =
           (Fin (F_statistic gs),
            fdtrc (length gs - 1) (length (concat gs) - length gs) (Fin (F_statistic gs)))"
proof -
  have c1: "\<not> list_ex (\<lambda>a. a = []) arrs"
    using ne by (simp add: list_ex_iff)
  have "2 \<le> length a0"
    using var(2,3,4) by (intro two_elements_length [of "Some x" _ "Some y"]) simp_all
  then have "length a0 \<noteq> 1" by simp
  then have c2: "\<not> list_all (\<lambda>a. length a = 1) arrs"
    using var(1) by (auto simp: list_all_iff)
  have c3: "\<not> list_ex (\<lambda>a. list_ex (\<lambda>c. c = None) a) arrs"
    using nn by (auto simp: list_ex_iff)
  define g0 where "g0 = dropna_vals a0"
  have g0: "g0 \<in> set gs" "x \<in> set g0" "y \<in> set g0"
    using var(1,2,3) by (simp_all add: g0_def gs dropna_vals_member)
  have gne: "\<forall>g \<in> set gs. g \<noteq> []"
  proof
    fix g assume "g \<in> set gs"
    then obtain a where a: "a \<in> set arrs" "g = dropna_vals a" by (auto simp: gs)
    then have "map Some g = a" using nn by (simp add: dropna_vals_no_None)
    moreover have "a \<noteq> []" using ne a(1) by simp
    ultimately show "g \<noteq> []" by auto
  qed
  have ac: "\<not> list_all (\<lambda>s. list_all (\<lambda>t. t = s ! 0) s) gs"
  proof -
    have "\<not> list_all (\<lambda>t. t = g0 ! 0) g0"
      using g0(2,3) var(4) by (rule not_all_equal)
    then show ?thesis using g0(1) by (auto simp: list_all_iff)
  qed
  have xs: "x \<in> set (concat gs)" "y \<in> set (concat gs)"
    using g0 by auto
  have asc: "\<not> list_all (\<lambda>t. t = concat gs ! 0) (concat gs)"
    using xs var(4) by (rule not_all_equal)
  have len2: "2 \<le> length g0"
    using g0(2,3) var(4) by (rule two_elements_length)
  have kN: "length gs < length (concat gs)"
    using gne g0(1) len2 by (rule length_concat_gt)
  have cne: "concat gs \<noteq> []"
  proof
    assume "concat gs = []"
    then have "length (concat gs) = 0" by simp
    with kN show False by simp
  qed
  define off where "off = sum_list (concat gs) / real (length (concat gs))"
  define nss where "nss = (sum_list (map (\<lambda>t. t - off) (concat gs)))\<^sup>2 / real (length (concat gs))"
  define sstot where "sstot = sum_list (map (\<lambda>t. t\<^sup>2) (map (\<lambda>t. t - off) (concat gs))) - nss"
  define ssbn where
    "ssbn = sum_list (map (\<lambda>s. (sum_list (map (\<lambda>t. t - off) s))\<^sup>2 / real (length s)) gs) - nss"
  have code: "f_oneway_arrays fdtrc arrs =
      (xdiv (ssbn / real (length gs - 1)) ((sstot - ssbn) / real (length (concat gs) - length gs)),
       fdtrc (length gs - 1) (length (concat gs) - length gs)
         (xdiv (ssbn / real (length gs - 1)) ((sstot - ssbn) / real (length (concat gs) - length gs))))"
    unfolding f_oneway_arrays_def Let_def ssbn_def sstot_def nss_def off_def gs [symmetric]
    using c1 c2 c3 ac asc by (simp only: if_False)
  have off: "off = avg (concat gs)"
    by (simp add: off_def avg_def)
  have nss0: "nss = 0"
    unfolding nss_def off using sum_list_dev_avg [OF cne] by simp
  have b: "ssbn = ss_between gs"
    unfolding ssbn_def nss0 ss_between_def off using between_code [OF gne, of "avg (concat gs)"] by simp
  have "sstot = (\<Sum>t\<leftarrow>concat gs. (t - off)\<^sup>2)"
    unfolding sstot_def nss0 by (simp add: comp_def)
  also have "\<dots> = ss_within gs + ss_between gs"
    unfolding off ss_within_def ss_between_def by (rule total_decomposition [OF gne])
  finally have w: "sstot - ssbn = ss_within gs"
    by (simp add: b)
  have "0 < ss_within gs"
    using g0 var(4) by (rule ss_within_pos)
  moreover have "0 < real (length (concat gs) - length gs)"
    using kN by simp
  ultimately have msw: "ss_within gs / real (length (concat gs) - length gs) \<noteq> 0"
    by simp
  have "xdiv (ss_between gs / real (length gs - 1)) (ss_within gs / real (length (concat gs) - length gs))
          = Fin (F_statistic gs)"
    using msw by (simp only: xdiv_def F_statistic_def if_False)
  moreover have "sstot - ss_between gs = ss_within gs"
    using w by (simp only: b)
  ultimately show ?thesis
    by (simp only: code b)
qed


lemma collect_map_Inr: "collect (map (\<lambda>x. Inr (f x)) xs) = Inr (map f xs)"
  by (induction xs) simp_all

lemma collect_Inl: "collect rs = Inl e \<Longrightarrow> Inl e \<in> set rs"
proof (induction rs)
  case Nil
  then show ?case by simp
next
  case (Cons r rs)
  then show ?case by (cases r) (auto split: sum.splits)
qed

lemma getitem_error: "getitem d name = Inl e \<Longrightarrow> e = KeyError"
  by (auto simp: getitem_def split: option.splits)

lemma groupby_error: "groupby c = Inl e \<Longrightarrow> e = Unmodelled"
  by (cases c) auto

lemma asarray_float_error: "asarray_float c = Inl e \<Longrightarrow> e = Unmodelled"
  by (cases c) auto

lemma f_oneway_error:
  assumes "f_oneway fdtrc samples = Inl e"
  shows "e = TypeError \<or> e = Unmodelled"
proof (cases "length samples < 2")
  case True
  then show ?thesis using assms by (simp add: f_oneway_def)
next
  case False
  then have "collect (map asarray_float samples) = Inl e"
    using assms by (simp add: f_oneway_def split: sum.splits)
  then have "Inl e \<in> set (map asarray_float samples)" by (rule collect_Inl)
  then obtain c where "asarray_float c = Inl e" by auto
  then show ?thesis by (simp add: asarray_float_error)
qed

lemma anova_test_error:
  assumes "anova_test fdtrc h df = Inl e"
  shows "e = KeyError \<or> e = TypeError \<or> e = Unmodelled"
proof (cases "getitem (objs h df) ''neighbourhood_group''")
  case (Inl e')
  then show ?thesis using assms getitem_error [OF Inl] by (simp add: anova_test_def)
next
  case keys: (Inr keys)
  show ?thesis
  proof (cases "groupby keys")
    case (Inl e')
    then show ?thesis using assms keys groupby_error [OF Inl] by (simp add: anova_test_def)
  next
    case masks: (Inr masks)
    show ?thesis
    proof (cases "collect (map (\<lambda>m. getitem (loc (objs h df) m) ''price'') masks)")
      case (Inl e')
      then have "e' = e" using assms keys masks by (simp add: anova_test_def)
      moreover from collect_Inl [OF Inl] obtain m where
        "getitem (loc (objs h df) m) ''price'' = Inl e'" by auto
      ultimately show ?thesis using getitem_error by blast
    next
      case (Inr groups)
      then have "f_oneway fdtrc groups = Inl e"
        using assms keys masks by (simp add: anova_test_def)
      then show ?thesis using f_oneway_error by blast
    qed
  qed
qed

lemma anova_test_price_groups:
  assumes "getitem (objs h df) ''neighbourhood_group'' = Inr (Object keys)"
    and "getitem (objs h df) ''price'' = Inr (Float64 prices)"
  shows "anova_test fdtrc h df =
           (if length (price_groups keys prices) < 2 then Inl TypeError
            else Inr (f_oneway_arrays fdtrc (price_groups keys prices)))"
proof -
  have g: "(\<lambda>m. getitem (loc (objs h df) m) ''price'') = (\<lambda>m. Inr (Float64 (select m prices)))"
    using assms(2) by (simp add: getitem_loc)
  have c: "collect (map (\<lambda>m. getitem (loc (objs h df) m) ''price'') (group_masks keys)) =
             Inr (map (\<lambda>m. Float64 (select m prices)) (group_masks keys))"
    unfolding g by (rule collect_map_Inr)
  have f: "asarray_float \<circ> (\<lambda>m. Float64 (select m prices)) = (\<lambda>m. Inr (select m prices))"
    by (simp add: fun_eq_iff)
  have a: "collect (map (asarray_float \<circ> (\<lambda>m. Float64 (select m prices))) (group_masks keys)) =
             Inr (map (\<lambda>m. select m prices) (group_masks keys))"
    unfolding f by (rule collect_map_Inr)
  show ?thesis
    using assms(1) by (simp add: anova_test_def c f_oneway_def a price_groups_def)
qed


lemma map_filter_id_member: "k \<in> set (List.map_filter id keys) \<longleftrightarrow> Some k \<in> set keys"
  by (induction keys) (auto simp: List.map_filter_simps split: option.splits)

lemma price_groups_nonempty:
  assumes "length prices = length keys"
  shows "\<forall>a \<in> set (price_groups keys prices). a \<noteq> []"
proof
  fix a assume "a \<in> set (price_groups keys prices)"
  then obtain k where k: "Some k \<in> set keys" and a: "a = select (map (\<lambda>c. c = Some k) keys) prices"
    by (auto simp: price_groups_def group_masks_def map_filter_id_member)
  from k obtain i where i: "i < length keys" "keys ! i = Some k"
    by (auto simp: in_set_conv_nth)
  have "prices ! i \<in> set (nths prices {j. j < length (map (\<lambda>c. c = Some k) keys) \<and>
                                           map (\<lambda>c. c = Some k) keys ! j})"
    using i assms by (auto simp: set_nths)
  then have "prices ! i \<in> set a"
    by (simp only: a select_nths)
  then show "a \<noteq> []" by auto
qed

text \<open>
  The statistic does not depend on the order in which the groups are given, so the order
  in which \<open>groupby\<close> yields them is immaterial.
\<close>

lemma sum_list_map_mset:
  fixes f :: "'a \<Rightarrow> 'b::comm_monoid_add"
  assumes "mset xs = mset ys"
  shows "sum_list (map f xs) = sum_list (map f ys)"
proof -
  have "sum_list (map f xs) = sum_mset (image_mset f (mset xs))"
    by (simp only: sum_mset_sum_list [symmetric] mset_map)
  also have "\<dots> = sum_mset (image_mset f (mset ys))"
    by (simp only: assms)
  also have "\<dots> = sum_list (map f ys)"
    by (simp only: sum_mset_sum_list [symmetric] mset_map)
  finally show ?thesis .
qed

lemma sum_list_concat_groups:
  fixes gs :: "real list list"
  shows "sum_list (concat gs) = sum_list (map sum_list gs)"
  by (induction gs) simp_all

lemma F_statistic_order:
  assumes p: "mset gs = mset gs'"
  shows "F_statistic gs = F_statistic gs'"
proof -
  have len: "length gs = length gs'"
    using p by (rule mset_eq_length)
  have lc: "length (concat gs) = length (concat gs')"
    unfolding length_concat using p by (rule sum_list_map_mset)
  have sc: "sum_list (concat gs) = sum_list (concat gs')"
    unfolding sum_list_concat_groups using p by (rule sum_list_map_mset)
  have av: "avg (concat gs) = avg (concat gs')"
    by (simp only: avg_def lc sc)
  have b: "ss_between gs = ss_between gs'"
    unfolding ss_between_def av using p by (rule sum_list_map_mset)
  have w: "ss_within gs = ss_within gs'"
    unfolding ss_within_def using p by (rule sum_list_map_mset)
  show ?thesis
    by (simp only: F_statistic_def len lc b w)
qed

text \<open>
  Claim C6, as amended. The ANOVA never raises \<open>InsufficientGroupsError\<close>. With fewer
  than two neighbourhood groups it fails with the \<open>TypeError\<close> of \<open>f_oneway\<close> (a group
  is never empty: every group has a listing). With at least two groups, no missing price
  in a group and two different prices inside some group, it returns the F statistic of the
  standard sum-of-squares decomposition, \<open>(SSB / (k - 1)) / (SSW / (N - k))\<close>, and the
  value of the survival function of the F distribution with \<open>(k - 1, N - k)\<close> degrees of
  freedom at it.
\<close>

theorem anova_test_result:
  assumes ng: "getitem (objs h df) ''neighbourhood_group'' = Inr (Object keys)"
    and pr: "getitem (objs h df) ''price'' = Inr (Float64 prices)"
    and len: "length prices = length keys"
    and G: "G = price_groups keys prices"
    and gs: "gs = map dropna_vals G"
  shows "anova_test fdtrc h df \<noteq> Inl InsufficientGroupsError \<and>
         (\<forall>a \<in> set G. a \<noteq> []) \<and>
         (length G < 2 \<longrightarrow> anova_test fdtrc h df = Inl TypeError) \<and>
         (2 \<le> length G \<and> (\<forall>a \<in> set G. None \<notin> set a) \<and>
          (\<exists>a \<in> set G. \<exists>x y. Some x \<in> set a \<and> Some y \<in> set a \<and> x \<noteq> y) \<longrightarrow>
            anova_test fdtrc h df =
              Inr (Fin (F_statistic gs),
                   fdtrc (length gs - 1) (length (concat gs) - length gs) (Fin (F_statistic gs))))"
proof (intro conjI impI)
  show "anova_test fdtrc h df \<noteq> Inl InsufficientGroupsError"
    using anova_test_error [of fdtrc h df InsufficientGroupsError] by auto
next
  show ne: "\<forall>a \<in> set G. a \<noteq> []"
    unfolding G using len by (rule price_groups_nonempty)
next
  assume "length G < 2"
  then show "anova_test fdtrc h df = Inl TypeError"
    by (simp add: anova_test_price_groups [OF ng pr] G)
next
  assume a: "2 \<le> length G \<and> (\<forall>a \<in> set G. None \<notin> set a) \<and>
          (\<exists>a \<in> set G. \<exists>x y. Some x \<in> set a \<and> Some y \<in> set a \<and> x \<noteq> y)"
  then obtain a0 x y where v: "a0 \<in> set G" "Some x \<in> set a0" "Some y \<in> set a0" "x \<noteq> y"
    by blast
  have ne: "\<forall>a \<in> set G. a \<noteq> []"
    unfolding G using len by (rule price_groups_nonempty)
  have nn: "\<forall>a \<in> set G. None \<notin> set a"
    using a by blast
  have "f_oneway_arrays fdtrc G =
          (Fin (F_statistic gs),
           fdtrc (length gs - 1) (length (concat gs) - length gs) (Fin (F_statistic gs)))"
    using ne nn v gs by (rule f_oneway_arrays_F)
  moreover have "anova_test fdtrc h df = Inr (f_oneway_arrays fdtrc G)"
    using a by (simp add: anova_test_price_groups [OF ng pr] G)
  ultimately show "anova_test fdtrc h df =
              Inr (Fin (F_statistic gs),
                   fdtrc (length gs - 1) (length (concat gs) - length gs) (Fin (F_statistic gs)))"
    by simp
qed

lemma price_groups_frameAB:
  "price_groups [Some (PyStr ''A''), Some (PyStr ''A''), Some (PyStr ''A''),
                 Some (PyStr ''B''), Some (PyStr ''B''), Some (PyStr ''B'')]
                [Some 100, Some 110, Some 120, Some 200, Some 210, Some 220] =
     [[Some 100, Some 110, Some 120], [Some 200, Some 210, Some 220]]"
  by (simp add: price_groups_def group_masks_def List.map_filter_simps)

lemma F_statistic_frameAB:
  "F_statistic [[100, 110, 120], [200, 210, 220]] = 150"
  by (simp add: F_statistic_def ss_between_def ss_within_def avg_def power2_eq_square)

theorem anova_test_result_witness:
  "\<forall>fdtrc. anova_test fdtrc heapAB 0 = Inr (Fin 150, fdtrc 1 4 (Fin 150))"
proof
  fix fdtrc :: "nat \<Rightarrow> nat \<Rightarrow> xfloat \<Rightarrow> xfloat"
  let ?keys = "[Some (PyStr ''A''), Some (PyStr ''A''), Some (PyStr ''A''),
                Some (PyStr ''B''), Some (PyStr ''B''), Some (PyStr ''B'')]"
  let ?prices = "[Some 100, Some 110, Some 120, Some 200, Some 210, Some (220::real)]"
  let ?G = "[[Some 100, Some 110, Some 120], [Some 200, Some 210, Some (220::real)]]"
  let ?gs = "[[100, 110, 120], [200, 210, 220::real]]"
  have ng: "getitem (objs heapAB 0) ''neighbourhood_group'' = Inr (Object ?keys)"
    by (simp add: getitem_def heapAB_def frameAB_def)
  have pr: "getitem (objs heapAB 0) ''price'' = Inr (Float64 ?prices)"
    by (simp add: getitem_def heapAB_def frameAB_def)
  have len: "length ?prices = length ?keys"
    by simp
  have G: "?G = price_groups ?keys ?prices"
    by (simp only: price_groups_frameAB)
  have gs: "?gs = map dropna_vals ?G"
    by simp
  have pre: "2 \<le> length ?G \<and> (\<forall>a \<in> set ?G. None \<notin> set a) \<and>
          (\<exists>a \<in> set ?G. \<exists>x y. Some x \<in> set a \<and> Some y \<in> set a \<and> x \<noteq> y)"
  proof (intro conjI)
    show "2 \<le> length ?G" by simp
    show "\<forall>a \<in> set ?G. None \<notin> set a" by simp
    have "Some 100 \<in> set [Some 100, Some 110, Some (120::real)]"
         "Some 110 \<in> set [Some 100, Some 110, Some (120::real)]" "(100::real) \<noteq> 110"
      by simp_all
    then show "\<exists>a \<in> set ?G. \<exists>x y. Some x \<in> set a \<and> Some y \<in> set a \<and> x \<noteq> y"
      by (intro bexI [of _ "[Some 100, Some 110, Some (120::real)]"] exI [of _ 100] exI [of _ 110]) simp_all
  qed
  from anova_test_result [OF ng pr len G gs, of fdtrc, THEN conjunct2, THEN conjunct2, THEN conjunct2,
       THEN mp, OF pre]
  show "anova_test fdtrc heapAB 0 = Inr (Fin 150, fdtrc 1 4 (Fin 150))"
    by (simp add: F_statistic_frameAB eval_nat_numeral)
qed

theorem anova_test_one_group_counterexample:
  "anova_test (\<lambda>dfn dfd f. NaN) heapA 0 = Inl TypeError \<and>
   anova_test (\<lambda>dfn dfd f. NaN) heapA 0 \<noteq> Inl InsufficientGroupsError \<and>
   price_groups [Some (PyStr ''A''), Some (PyStr ''A''), Some (PyStr ''A'')]
                [Some 100, Some 110, Some 120] = [[Some 100, Some 110, Some 120]]"
proof -
  have ng: "getitem (objs heapA 0) ''neighbourhood_group'' =
              Inr (Object [Some (PyStr ''A''), Some (PyStr ''A''), Some (PyStr ''A'')])"
    by (simp add: getitem_def heapA_def frameA_def)
  have pr: "getitem (objs heapA 0) ''price'' = Inr (Float64 [Some 100, Some 110, Some 120])"
    by (simp add: getitem_def heapA_def frameA_def)
  have G: "price_groups [Some (PyStr ''A''), Some (PyStr ''A''), Some (PyStr ''A'')]
                [Some 100, Some 110, Some 120] = [[Some 100, Some 110, Some (120::real)]]"
    by (simp add: price_groups_def group_masks_def List.map_filter_simps)
  have r: "anova_test (\<lambda>dfn dfd f. NaN) heapA 0 = Inl TypeError"
    by (simp add: anova_test_price_groups [OF ng pr] G)
  from r G show ?thesis
    by simp
qed

end
